theory Spec2Isabelle
  imports Complex_Main "HOL-Library.AList"
begin

section \<open>Event booking backend: data model\<close>

text \<open>
  The development embeds the request handlers of \<^verbatim>\<open>bookingController.js\<close> and
  \<^verbatim>\<open>eventController.js\<close> together with the two Mongoose schemas they persist
  through. Conventions of the embedding:
  \<^item> an ObjectId is a natural number: only well-formed ids are represented (a malformed id
    string makes \<^verbatim>\<open>findById\<close> throw a cast error, which the handlers turn into a
    500);
  \<^item> a JavaScript Number is an exact number: \<open>int\<close> for ticket counts (Joi admits
    integers only), \<open>rat\<close> for prices and for numbers of a request body before
    validation; the range and rounding of IEEE doubles are not represented;
  \<^item> a collection is an association list from ids to documents, in insertion order;
  \<^item> the values the runtime generates for a new document (its ObjectId, the clock and the
    random suffix of a booking reference) are inputs of the handler;
  \<^item> the \<^verbatim>\<open>createdAt\<close>/\<^verbatim>\<open>updatedAt\<close> timestamps and failures of the database
    connection are not represented;
  \<^item> the job queue is one list: whether Redis or the in-memory fallback of
    \<^verbatim>\<open>jobQueueService.js\<close> holds a job is not distinguished;
  \<^item> the handlers are embedded as the routes call them, after the authentication
    middleware (which is not among the sources) has put the account id in
    \<^verbatim>\<open>req.user.id\<close>;
  \<^item> a handler returns the HTTP response and the store after it; every \<^verbatim>\<open>return
    res.status(...)\<close> and every exception caught by the handler's \<^verbatim>\<open>catch\<close> is a
    branch.
\<close>

type_synonym objectId = nat

text \<open>The Event schema (\<^verbatim>\<open>models/Event.js\<close>). The status is one of the strings
  \<^verbatim>\<open>draft\<close>, \<^verbatim>\<open>published\<close>, \<^verbatim>\<open>cancelled\<close>.\<close>

record Event =
  title :: string
  description :: string
  organizer :: objectId
  date :: int
  location :: string
  totalTickets :: int
  availableTickets :: int
  ticketPrice :: rat
  status :: string
  category :: "string option"

text \<open>The Booking schema (\<^verbatim>\<open>models/Booking.js\<close>).\<close>

record Booking =
  customer :: objectId
  event :: objectId
  quantity :: int
  totalPrice :: rat
  bookingStatus :: string
  bookingReference :: string

text \<open>Modelled from the spec: the account model (\<^verbatim>\<open>models/User.js\<close>) is not among the
  sources; of an Account only the display name and the email are read here, by
  \<^verbatim>\<open>populate\<close>.\<close>

record User =
  name :: string
  email :: string

text \<open>The payload of a \<^verbatim>\<open>booking-confirmation\<close> job.\<close>

record Job =
  jobBookingId :: objectId
  jobCustomerId :: objectId
  jobEventId :: objectId
  jobQuantity :: int
  jobBookingReference :: string

record db =
  users :: "(objectId \<times> User) list"
  events :: "(objectId \<times> Event) list"
  bookings :: "(objectId \<times> Booking) list"
  jobs :: "(string \<times> Job) list"

subsection \<open>Responses\<close>

text \<open>The first error of a Joi validation, by the key it is about.\<close>

datatype joiError =
  AnyRequired string
  | StringEmpty string
  | NumberInteger string
  | NumberMin string int
  | AnyOnly string

text \<open>What a \<^verbatim>\<open>catch\<close> block can have caught.\<close>

datatype cause = ValidationFailed | DuplicateKey | DocumentNotFound | TypeError

record BookingSummary =
  sId :: objectId
  sBookingReference :: string
  sQuantity :: int
  sTotalPrice :: rat
  sStatus :: string

datatype payload =
  Message string
  | ValidationMessage joiError
  | Failure string cause
  | BookingCreated string BookingSummary
  | MessageBooking string objectId Booking
  | MessageEvent string objectId Event
  | BookingDetails objectId Booking "Event option" User
  | EventList "(objectId \<times> Event \<times> User option) list"

datatype response = Response (code: nat) (body: payload)

subsection \<open>Rendering numbers and trimming strings\<close>

fun showNat :: "nat \<Rightarrow> string" where
  "showNat n = (if n < 10 then [''0123456789'' ! n]
                else showNat (n div 10) @ [''0123456789'' ! (n mod 10)])"

declare showNat.simps [simp del]

definition showInt :: "int \<Rightarrow> string" where
  "showInt i = (if i < 0 then CHR ''-'' # showNat (nat (- i)) else showNat (nat i))"

definition isWhitespace :: "char \<Rightarrow> bool" where
  "isWhitespace c = (c = CHR '' '' \<or> c = CHR 0x09 \<or> c = CHR 0x0A \<or> c = CHR 0x0B
     \<or> c = CHR 0x0C \<or> c = CHR 0x0D)"

text \<open>The \<^verbatim>\<open>trim: true\<close> setter of a schema string, on ASCII white space.\<close>

definition trim :: "string \<Rightarrow> string" where
  "trim s = rev (dropWhile isWhitespace (rev (dropWhile isWhitespace s)))"

subsection \<open>Schema validation and persistence\<close>

text \<open>What Mongoose validates when an Event is saved: the required strings are not empty,
  \<^verbatim>\<open>totalTickets\<close> is at least 1, \<^verbatim>\<open>ticketPrice\<close> at least 0, the status is in the enum.
  \<^verbatim>\<open>availableTickets\<close> is required but has no minimum.\<close>

definition eventSchema_valid :: "Event \<Rightarrow> bool" where
  "eventSchema_valid e =
     (title e \<noteq> [] \<and> description e \<noteq> [] \<and> location e \<noteq> [] \<and> 1 \<le> totalTickets e
      \<and> 0 \<le> ticketPrice e \<and> status e \<in> set [''draft'', ''published'', ''cancelled''])"

definition bookingSchema_valid :: "Booking \<Rightarrow> bool" where
  "bookingSchema_valid b =
     (1 \<le> quantity b \<and> 0 \<le> totalPrice b \<and> bookingReference b \<noteq> []
      \<and> bookingStatus b \<in> set [''pending'', ''confirmed'', ''cancelled''])"

definition findById :: "(objectId \<times> 'a) list \<Rightarrow> objectId \<Rightarrow> 'a option" where
  "findById coll i = map_of coll i"

text \<open>\<^verbatim>\<open>save()\<close> of a document read from the collection: validation, then the update
  of the stored document.\<close>

definition saveEvent :: "(objectId \<times> Event) list \<Rightarrow> objectId \<Rightarrow> Event
    \<Rightarrow> cause + (objectId \<times> Event) list" where
  "saveEvent coll i e =
     (if \<not> eventSchema_valid e then Inl ValidationFailed
      else if findById coll i = None then Inl DocumentNotFound
      else Inr (AList.update i e coll))"

definition saveBooking :: "(objectId \<times> Booking) list \<Rightarrow> objectId \<Rightarrow> Booking
    \<Rightarrow> cause + (objectId \<times> Booking) list" where
  "saveBooking coll i b =
     (if \<not> bookingSchema_valid b then Inl ValidationFailed
      else if findById coll i = None then Inl DocumentNotFound
      else Inr (AList.update i b coll))"

text \<open>\<^verbatim>\<open>save()\<close> of a new document: validation, then the insert, which the unique
  indexes (\<^verbatim>\<open>_id\<close>, and \<^verbatim>\<open>bookingReference\<close> of a booking) can refuse.\<close>

definition insertEvent :: "(objectId \<times> Event) list \<Rightarrow> objectId \<Rightarrow> Event
    \<Rightarrow> cause + (objectId \<times> Event) list" where
  "insertEvent coll i e =
     (if \<not> eventSchema_valid e then Inl ValidationFailed
      else if findById coll i \<noteq> None then Inl DuplicateKey
      else Inr (coll @ [(i, e)]))"

definition insertBooking :: "(objectId \<times> Booking) list \<Rightarrow> objectId \<Rightarrow> Booking
    \<Rightarrow> cause + (objectId \<times> Booking) list" where
  "insertBooking coll i b =
     (if \<not> bookingSchema_valid b then Inl ValidationFailed
      else if findById coll i \<noteq> None
              \<or> bookingReference b \<in> set (map (\<lambda>p. bookingReference (snd p)) coll)
           then Inl DuplicateKey
      else Inr (coll @ [(i, b)]))"

section \<open>The booking controller\<close>

subsection \<open>Request validation\<close>

text \<open>The body of \<^verbatim>\<open>POST /bookings\<close> as received, and as \<^verbatim>\<open>bookingSchema\<close>
  returns it: \<^verbatim>\<open>eventId\<close> a required string, \<^verbatim>\<open>quantity\<close> a required integer, at
  least 1.\<close>

record BookingBody =
  bodyEventId :: "objectId option"
  bodyQuantity :: "rat option"

record BookingValue =
  valueEventId :: objectId
  valueQuantity :: int

definition isInteger :: "rat \<Rightarrow> bool" where
  "isInteger q = (of_int \<lfloor>q\<rfloor> = q)"

definition joiIntegerMin :: "string \<Rightarrow> int \<Rightarrow> rat \<Rightarrow> joiError + int" where
  "joiIntegerMin key m q =
     (if \<not> isInteger q then Inl (NumberInteger key)
      else if \<lfloor>q\<rfloor> < m then Inl (NumberMin key m)
      else Inr \<lfloor>q\<rfloor>)"

definition bookingSchema_validate :: "BookingBody \<Rightarrow> joiError + BookingValue" where
  "bookingSchema_validate b =
     (case bodyEventId b of
        None \<Rightarrow> Inl (AnyRequired ''eventId'')
      | Some eid \<Rightarrow>
          (case bodyQuantity b of
             None \<Rightarrow> Inl (AnyRequired ''quantity'')
           | Some q \<Rightarrow>
               (case joiIntegerMin ''quantity'' 1 q of
                  Inl err \<Rightarrow> Inl err
                | Inr n \<Rightarrow> Inr \<lparr>valueEventId = eid, valueQuantity = n\<rparr>)))"

subsection \<open>bookTickets\<close>

text \<open>What the runtime supplies while a booking is made: the ObjectId of the new
  document, \<^verbatim>\<open>Date.now()\<close> and the suffix
  \<^verbatim>\<open>Math.random().toString(36).substr(2, 9).toUpperCase()\<close>.\<close>

record Generated =
  newId :: objectId
  now :: nat
  randomSuffix :: string

definition generateBookingReference :: "Generated \<Rightarrow> string" where
  "generateBookingReference g = ''BK'' @ showNat (now g) @ randomSuffix g"

record BookingRequest =
  bookingBody :: BookingBody
  bookingUser :: objectId

definition bookTickets :: "db \<Rightarrow> Generated \<Rightarrow> BookingRequest \<Rightarrow> response \<times> db" where
  "bookTickets s g req =
     (case bookingSchema_validate (bookingBody req) of
        Inl err \<Rightarrow> (Response 400 (ValidationMessage err), s)
      | Inr v \<Rightarrow>
          (case findById (events s) (valueEventId v) of
             None \<Rightarrow> (Response 404 (Message ''Event not found''), s)
           | Some ev \<Rightarrow>
               if status ev \<noteq> ''published''
               then (Response 400 (Message ''Event is not published''), s)
               else if availableTickets ev < valueQuantity v
               then (Response 400 (Message (''Not enough tickets available. Only ''
                       @ showInt (availableTickets ev) @ '' remaining'')), s)
               else
                 let ref = generateBookingReference g;
                     price = ticketPrice ev * of_int (valueQuantity v);
                     booking = \<lparr>customer = bookingUser req, event = valueEventId v,
                        quantity = valueQuantity v, totalPrice = price,
                        bookingStatus = ''confirmed'', bookingReference = ref\<rparr>
                 in (case insertBooking (bookings s) (newId g) booking of
                       Inl c \<Rightarrow> (Response 500 (Failure ''Error booking tickets'' c), s)
                     | Inr bs \<Rightarrow>
                         (case saveEvent (events s) (valueEventId v)
                                 (ev\<lparr>availableTickets := availableTickets ev - valueQuantity v\<rparr>) of
                            Inl c \<Rightarrow> (Response 500 (Failure ''Error booking tickets'' c),
                                        s\<lparr>bookings := bs\<rparr>)
                          | Inr es \<Rightarrow>
                              (Response 201 (BookingCreated ''Booking created successfully''
                                 \<lparr>sId = newId g, sBookingReference = ref,
                                  sQuantity = valueQuantity v, sTotalPrice = price,
                                  sStatus = ''confirmed''\<rparr>),
                               s\<lparr>bookings := bs, events := es,
                                 jobs := jobs s @ [(''booking-confirmation'',
                                   \<lparr>jobBookingId = newId g, jobCustomerId = bookingUser req,
                                    jobEventId = valueEventId v, jobQuantity = valueQuantity v,
                                    jobBookingReference = ref\<rparr>)]\<rparr>)))))"

subsection \<open>cancelBooking\<close>

text \<open>The booking is saved as cancelled before its event is read: when the event is no
  longer stored, \<^verbatim>\<open>event.availableTickets\<close> throws on \<^verbatim>\<open>null\<close> and the handler
  answers 500 with the booking already cancelled.\<close>

definition cancelBooking :: "db \<Rightarrow> objectId \<Rightarrow> objectId \<Rightarrow> response \<times> db" where
  "cancelBooking s bid uid =
     (case findById (bookings s) bid of
        None \<Rightarrow> (Response 404 (Message ''Booking not found''), s)
      | Some b \<Rightarrow>
          if customer b \<noteq> uid
          then (Response 403 (Message ''Not authorized to cancel this booking''), s)
          else if bookingStatus b = ''cancelled''
          then (Response 400 (Message ''Booking is already cancelled''), s)
          else
            (case saveBooking (bookings s) bid (b\<lparr>bookingStatus := ''cancelled''\<rparr>) of
               Inl c \<Rightarrow> (Response 500 (Failure ''Error cancelling booking'' c), s)
             | Inr bs \<Rightarrow>
                 (case findById (events s) (event b) of
                    None \<Rightarrow> (Response 500 (Failure ''Error cancelling booking'' TypeError),
                              s\<lparr>bookings := bs\<rparr>)
                  | Some ev \<Rightarrow>
                      (case saveEvent (events s) (event b)
                              (ev\<lparr>availableTickets := availableTickets ev + quantity b\<rparr>) of
                         Inl c \<Rightarrow> (Response 500 (Failure ''Error cancelling booking'' c),
                                     s\<lparr>bookings := bs\<rparr>)
                       | Inr es \<Rightarrow>
                           (Response 200 (MessageBooking ''Booking cancelled successfully'' bid
                              (b\<lparr>bookingStatus := ''cancelled''\<rparr>)),
                            s\<lparr>bookings := bs, events := es\<rparr>)))))"

subsection \<open>getBookingById\<close>

text \<open>The booking is read with its event and its customer populated; a reference to a
  document that is no longer stored populates as \<^verbatim>\<open>null\<close>, and reading \<^verbatim>\<open>_id\<close> of
  it throws.\<close>

definition getBookingById :: "db \<Rightarrow> objectId \<Rightarrow> objectId \<Rightarrow> response \<times> db" where
  "getBookingById s bid uid =
     (case findById (bookings s) bid of
        None \<Rightarrow> (Response 404 (Message ''Booking not found''), s)
      | Some b \<Rightarrow>
          (case findById (users s) (customer b) of
             None \<Rightarrow> (Response 500 (Failure ''Error fetching booking'' TypeError), s)
           | Some cu \<Rightarrow>
               if customer b \<noteq> uid
               then
                 (case findById (events s) (event b) of
                    None \<Rightarrow> (Response 500 (Failure ''Error fetching booking'' TypeError), s)
                  | Some ev \<Rightarrow>
                      if organizer ev \<noteq> uid
                      then (Response 403 (Message ''Not authorized to view this booking''), s)
                      else (Response 200 (BookingDetails bid b (Some ev) cu), s))
               else (Response 200 (BookingDetails bid b (findById (events s) (event b)) cu), s)))"

section \<open>The event controller\<close>

subsection \<open>Request validation\<close>

definition joiRequired :: "string \<Rightarrow> 'a option \<Rightarrow> ('a \<Rightarrow> joiError + 'b) \<Rightarrow> joiError + 'b" where
  "joiRequired key v check = (case v of None \<Rightarrow> Inl (AnyRequired key) | Some x \<Rightarrow> check x)"

definition joiOptional :: "'a option \<Rightarrow> ('a \<Rightarrow> joiError + 'b) \<Rightarrow> joiError + 'b option" where
  "joiOptional v check =
     (case v of
        None \<Rightarrow> Inr None
      | Some x \<Rightarrow> (case check x of Inl err \<Rightarrow> Inl err | Inr y \<Rightarrow> Inr (Some y)))"

definition joiString :: "string \<Rightarrow> string \<Rightarrow> joiError + string" where
  "joiString key x = (if x = [] then Inl (StringEmpty key) else Inr x)"

definition joiNumberMin :: "string \<Rightarrow> int \<Rightarrow> rat \<Rightarrow> joiError + rat" where
  "joiNumberMin key m q = (if q < of_int m then Inl (NumberMin key m) else Inr q)"

definition joiValid :: "string \<Rightarrow> string list \<Rightarrow> string \<Rightarrow> joiError + string" where
  "joiValid key allowed x = (if x \<in> set allowed then Inr x else Inl (AnyOnly key))"

definition joiDate :: "int \<Rightarrow> joiError + int" where
  "joiDate x = Inr x"

definition andThen :: "joiError + 'a \<Rightarrow> ('a \<Rightarrow> joiError + 'b) \<Rightarrow> joiError + 'b" where
  "andThen r k = (case r of Inl err \<Rightarrow> Inl err | Inr x \<Rightarrow> k x)"

record CreateEventBody =
  ceTitle :: "string option"
  ceDescription :: "string option"
  ceDate :: "int option"
  ceLocation :: "string option"
  ceTotalTickets :: "rat option"
  ceTicketPrice :: "rat option"
  ceCategory :: "string option"

record CreateEventValue =
  cvTitle :: string
  cvDescription :: string
  cvDate :: int
  cvLocation :: string
  cvTotalTickets :: int
  cvTicketPrice :: rat
  cvCategory :: "string option"

definition createEventSchema_validate :: "CreateEventBody \<Rightarrow> joiError + CreateEventValue" where
  "createEventSchema_validate b =
     andThen (joiRequired ''title'' (ceTitle b) (joiString ''title'')) (\<lambda>t.
     andThen (joiRequired ''description'' (ceDescription b) (joiString ''description'')) (\<lambda>d.
     andThen (joiRequired ''date'' (ceDate b) joiDate) (\<lambda>dt.
     andThen (joiRequired ''location'' (ceLocation b) (joiString ''location'')) (\<lambda>l.
     andThen (joiRequired ''totalTickets'' (ceTotalTickets b) (joiIntegerMin ''totalTickets'' 1)) (\<lambda>n.
     andThen (joiRequired ''ticketPrice'' (ceTicketPrice b) (joiNumberMin ''ticketPrice'' 0)) (\<lambda>p.
     andThen (joiOptional (ceCategory b) (joiString ''category'')) (\<lambda>c.
       Inr \<lparr>cvTitle = t, cvDescription = d, cvDate = dt, cvLocation = l,
            cvTotalTickets = n, cvTicketPrice = p, cvCategory = c\<rparr>)))))))"

record UpdateEventBody =
  ueTitle :: "string option"
  ueDescription :: "string option"
  ueDate :: "int option"
  ueLocation :: "string option"
  ueTotalTickets :: "rat option"
  ueTicketPrice :: "rat option"
  ueStatus :: "string option"
  ueCategory :: "string option"

record UpdateEventValue =
  uvTitle :: "string option"
  uvDescription :: "string option"
  uvDate :: "int option"
  uvLocation :: "string option"
  uvTotalTickets :: "int option"
  uvTicketPrice :: "rat option"
  uvStatus :: "string option"
  uvCategory :: "string option"

definition updateEventSchema_validate :: "UpdateEventBody \<Rightarrow> joiError + UpdateEventValue" where
  "updateEventSchema_validate b =
     andThen (joiOptional (ueTitle b) (joiString ''title'')) (\<lambda>t.
     andThen (joiOptional (ueDescription b) (joiString ''description'')) (\<lambda>d.
     andThen (joiOptional (ueDate b) joiDate) (\<lambda>dt.
     andThen (joiOptional (ueLocation b) (joiString ''location'')) (\<lambda>l.
     andThen (joiOptional (ueTotalTickets b) (joiIntegerMin ''totalTickets'' 1)) (\<lambda>n.
     andThen (joiOptional (ueTicketPrice b) (joiNumberMin ''ticketPrice'' 0)) (\<lambda>p.
     andThen (joiOptional (ueStatus b)
                (joiValid ''status'' [''draft'', ''published'', ''cancelled''])) (\<lambda>st.
     andThen (joiOptional (ueCategory b) (joiString ''category'')) (\<lambda>c.
       Inr \<lparr>uvTitle = t, uvDescription = d, uvDate = dt, uvLocation = l,
            uvTotalTickets = n, uvTicketPrice = p, uvStatus = st, uvCategory = c\<rparr>))))))))"

subsection \<open>createEvent\<close>

text \<open>The new event is a draft (the schema's default status) with all its tickets
  available; the schema trims the title and the category when they are set.\<close>

definition createEvent :: "db \<Rightarrow> objectId \<Rightarrow> objectId \<Rightarrow> CreateEventBody \<Rightarrow> response \<times> db" where
  "createEvent s new uid b =
     (case createEventSchema_validate b of
        Inl err \<Rightarrow> (Response 400 (ValidationMessage err), s)
      | Inr v \<Rightarrow>
          let ev = \<lparr>title = trim (cvTitle v), description = cvDescription v, organizer = uid,
                    date = cvDate v, location = cvLocation v, totalTickets = cvTotalTickets v,
                    availableTickets = cvTotalTickets v, ticketPrice = cvTicketPrice v,
                    status = ''draft'', category = map_option trim (cvCategory v)\<rparr>
          in (case insertEvent (events s) new ev of
                Inl c \<Rightarrow> (Response 500 (Failure ''Error creating event'' c), s)
              | Inr es \<Rightarrow>
                  (Response 201 (MessageEvent ''Event created successfully'' new ev),
                   s\<lparr>events := es\<rparr>)))"

subsection \<open>getEvents\<close>

record EventsQuery =
  queryStatus :: "string option"
  queryCategory :: "string option"

definition eventFilter :: "EventsQuery \<Rightarrow> Event \<Rightarrow> bool" where
  "eventFilter q e =
     (status e = (case queryStatus q of None \<Rightarrow> ''published'' | Some st \<Rightarrow> st)
      \<and> (case queryCategory q of
           None \<Rightarrow> True
         | Some c \<Rightarrow> if c = [] then True else category e = Some c))"

definition getEvents :: "db \<Rightarrow> EventsQuery \<Rightarrow> response \<times> db" where
  "getEvents s q =
     (Response 200 (EventList
        (map (\<lambda>p. (fst p, snd p, findById (users s) (organizer (snd p))))
           (filter (\<lambda>p. eventFilter q (snd p)) (events s)))), s)"

subsection \<open>updateEvent\<close>

text \<open>\<^verbatim>\<open>Object.assign(event, value)\<close>: every key of the validated body, and the
  \<^verbatim>\<open>availableTickets\<close> the handler may have added to it, is set on the document.\<close>

definition assignEvent :: "Event \<Rightarrow> UpdateEventValue \<Rightarrow> int option \<Rightarrow> Event" where
  "assignEvent e v avail =
     e\<lparr>title := (case uvTitle v of None \<Rightarrow> title e | Some t \<Rightarrow> trim t),
       description := (case uvDescription v of None \<Rightarrow> description e | Some d \<Rightarrow> d),
       date := (case uvDate v of None \<Rightarrow> date e | Some dt \<Rightarrow> dt),
       location := (case uvLocation v of None \<Rightarrow> location e | Some l \<Rightarrow> l),
       totalTickets := (case uvTotalTickets v of None \<Rightarrow> totalTickets e | Some n \<Rightarrow> n),
       ticketPrice := (case uvTicketPrice v of None \<Rightarrow> ticketPrice e | Some p \<Rightarrow> p),
       status := (case uvStatus v of None \<Rightarrow> status e | Some st \<Rightarrow> st),
       category := (case uvCategory v of None \<Rightarrow> category e | Some c \<Rightarrow> Some (trim c)),
       availableTickets := (case avail of None \<Rightarrow> availableTickets e | Some a \<Rightarrow> a)\<rparr>"

definition updateEvent :: "db \<Rightarrow> objectId \<Rightarrow> objectId \<Rightarrow> UpdateEventBody \<Rightarrow> response \<times> db" where
  "updateEvent s eid uid b =
     (case updateEventSchema_validate b of
        Inl err \<Rightarrow> (Response 400 (ValidationMessage err), s)
      | Inr v \<Rightarrow>
          (case findById (events s) eid of
             None \<Rightarrow> (Response 404 (Message ''Event not found''), s)
           | Some ev \<Rightarrow>
               if organizer ev \<noteq> uid
               then (Response 403 (Message ''Not authorized to update this event''), s)
               else
                 let avail =
                       (case uvTotalTickets v of
                          None \<Rightarrow> None
                        | Some n \<Rightarrow>
                            if n \<noteq> 0 \<and> n \<noteq> totalTickets ev
                            then Some (availableTickets ev + (n - totalTickets ev))
                            else None);
                     ev' = assignEvent ev v avail
                 in (case saveEvent (events s) eid ev' of
                       Inl c \<Rightarrow> (Response 500 (Failure ''Error updating event'' c), s)
                     | Inr es \<Rightarrow>
                         (Response 200 (MessageEvent ''Event updated successfully'' eid ev'),
                          s\<lparr>events := es\<rparr>))))"

subsection \<open>deleteEvent and publishEvent\<close>


definition publishEvent :: "db \<Rightarrow> objectId \<Rightarrow> objectId \<Rightarrow> response \<times> db" where
  "publishEvent s eid uid =
     (case findById (events s) eid of
        None \<Rightarrow> (Response 404 (Message ''Event not found''), s)
      | Some ev \<Rightarrow>
          if organizer ev \<noteq> uid
          then (Response 403 (Message ''Not authorized to publish this event''), s)
          else
            (case saveEvent (events s) eid (ev\<lparr>status := ''published''\<rparr>) of
               Inl c \<Rightarrow> (Response 500 (Failure ''Error publishing event'' c), s)
             | Inr es \<Rightarrow>
                 (Response 200 (MessageEvent ''Event published successfully'' eid
                    (ev\<lparr>status := ''published''\<rparr>)),
                  s\<lparr>events := es\<rparr>)))"

section \<open>Sequences of requests\<close>

text \<open>The requests that change the inventory, served one after the other: each handler
  runs to completion on the store the previous one left.\<close>

datatype operation =
  CreateEvent objectId objectId CreateEventBody
  | UpdateEvent objectId objectId UpdateEventBody
  | PublishEvent objectId objectId
  | BookTickets Generated BookingRequest
  | CancelBooking objectId objectId

fun perform :: "db \<Rightarrow> operation \<Rightarrow> response \<times> db" where
  "perform s (CreateEvent new uid b) = createEvent s new uid b"
| "perform s (UpdateEvent eid uid b) = updateEvent s eid uid b"
| "perform s (PublishEvent eid uid) = publishEvent s eid uid"
| "perform s (BookTickets g req) = bookTickets s g req"
| "perform s (CancelBooking bid uid) = cancelBooking s bid uid"

fun run :: "db \<Rightarrow> operation list \<Rightarrow> db" where
  "run s [] = s"
| "run s (x # xs) = run (snd (perform s x)) xs"

definition emptyDb :: db where
  "emptyDb = \<lparr>users = [], events = [], bookings = [], jobs = []\<rparr>"

section \<open>Interleaved bookings\<close>

text \<open>\<^verbatim>\<open>bookTickets\<close> awaits the store four times: \<^verbatim>\<open>Event.findById\<close>,
  \<^verbatim>\<open>booking.save()\<close>, \<^verbatim>\<open>event.save()\<close> and \<^verbatim>\<open>jobQueue.addJob\<close>. Between two awaits
  the handler runs alone; at an await another request may be served. A pending booking is
  a request stopped at an await, with the local variables it holds: the event is the copy
  read by \<^verbatim>\<open>findById\<close>, and \<^verbatim>\<open>event.save()\<close> writes the path modified on that
  copy, \<^verbatim>\<open>availableTickets\<close>, to the stored document. Run alone, the steps are the
  handler (lemma \<open>bookTickets_as_steps\<close>).\<close>

datatype pendingBooking =
  Received Generated BookingRequest
  | EventRead Generated BookingRequest BookingValue "Event option"
  | BookingStored Generated BookingRequest BookingValue Event Booking
  | EventStored Generated BookingRequest BookingValue Booking
  | Responded response

definition saveAvailableTickets :: "(objectId \<times> Event) list \<Rightarrow> objectId \<Rightarrow> Event
    \<Rightarrow> cause + (objectId \<times> Event) list" where
  "saveAvailableTickets coll i e =
     (if \<not> eventSchema_valid e then Inl ValidationFailed
      else (case findById coll i of
              None \<Rightarrow> Inl DocumentNotFound
            | Some cur \<Rightarrow>
                Inr (AList.update i (cur\<lparr>availableTickets := availableTickets e\<rparr>) coll)))"

fun stepBook :: "db \<Rightarrow> pendingBooking \<Rightarrow> pendingBooking \<times> db" where
  "stepBook s (Received g req) =
     (case bookingSchema_validate (bookingBody req) of
        Inl err \<Rightarrow> (Responded (Response 400 (ValidationMessage err)), s)
      | Inr v \<Rightarrow> (EventRead g req v (findById (events s) (valueEventId v)), s))"
| "stepBook s (EventRead g req v found) =
     (case found of
        None \<Rightarrow> (Responded (Response 404 (Message ''Event not found'')), s)
      | Some ev \<Rightarrow>
          if status ev \<noteq> ''published''
          then (Responded (Response 400 (Message ''Event is not published'')), s)
          else if availableTickets ev < valueQuantity v
          then (Responded (Response 400 (Message (''Not enough tickets available. Only ''
                  @ showInt (availableTickets ev) @ '' remaining''))), s)
          else
            let booking = \<lparr>customer = bookingUser req, event = valueEventId v,
                   quantity = valueQuantity v,
                   totalPrice = ticketPrice ev * of_int (valueQuantity v),
                   bookingStatus = ''confirmed'',
                   bookingReference = generateBookingReference g\<rparr>
            in (case insertBooking (bookings s) (newId g) booking of
                  Inl c \<Rightarrow> (Responded (Response 500 (Failure ''Error booking tickets'' c)), s)
                | Inr bs \<Rightarrow> (BookingStored g req v ev booking, s\<lparr>bookings := bs\<rparr>)))"
| "stepBook s (BookingStored g req v ev booking) =
     (case saveAvailableTickets (events s) (valueEventId v)
             (ev\<lparr>availableTickets := availableTickets ev - valueQuantity v\<rparr>) of
        Inl c \<Rightarrow> (Responded (Response 500 (Failure ''Error booking tickets'' c)), s)
      | Inr es \<Rightarrow> (EventStored g req v booking, s\<lparr>events := es\<rparr>))"
| "stepBook s (EventStored g req v booking) =
     (Responded (Response 201 (BookingCreated ''Booking created successfully''
        \<lparr>sId = newId g, sBookingReference = bookingReference booking,
         sQuantity = quantity booking, sTotalPrice = totalPrice booking,
         sStatus = bookingStatus booking\<rparr>)),
      s\<lparr>jobs := jobs s @ [(''booking-confirmation'',
           \<lparr>jobBookingId = newId g, jobCustomerId = bookingUser req,
            jobEventId = valueEventId v, jobQuantity = valueQuantity v,
            jobBookingReference = bookingReference booking\<rparr>)]\<rparr>)"
| "stepBook s (Responded r) = (Responded r, s)"

text \<open>A schedule names, step by step, the request that runs next.\<close>

fun runSchedule :: "nat list \<Rightarrow> db \<times> pendingBooking list \<Rightarrow> db \<times> pendingBooking list" where
  "runSchedule [] c = c"
| "runSchedule (i # sched) (s, ts) =
     (if i < length ts
      then runSchedule sched (snd (stepBook s (ts ! i)), ts[i := fst (stepBook s (ts ! i))])
      else runSchedule sched (s, ts))"

text \<open>The tickets held by the bookings of an event that are not cancelled.\<close>

definition soldTickets :: "db \<Rightarrow> objectId \<Rightarrow> int" where
  "soldTickets s eid =
     sum_list (map (\<lambda>p. quantity (snd p))
       (filter (\<lambda>p. event (snd p) = eid \<and> bookingStatus (snd p) \<noteq> ''cancelled'') (bookings s)))"

text \<open>The status codes a sequence of requests is answered with.\<close>

fun statusCodes :: "db \<Rightarrow> operation list \<Rightarrow> nat list" where
  "statusCodes s [] = []"
| "statusCodes s (x # xs) = code (fst (perform s x)) # statusCodes (snd (perform s x)) xs"

section \<open>Example stores and requests\<close>

text \<open>The scenario of the specification and of \<^verbatim>\<open>test-api.js\<close>: organizer 7 owns event
  41, ten tickets at 50 each; account 8 is another organizer, accounts 6 and 9 are
  customers.\<close>

definition conference :: Event where
  "conference =
     \<lparr>title = ''Tech Conference 2026'', description = ''Annual technology conference'',
      organizer = 7, date = 1790000000000, location = ''Convention Center'', totalTickets = 10,
      availableTickets = 10, ticketPrice = 50, status = ''published'',
      category = Some ''technology''\<rparr>"

definition boxOffice :: db where
  "boxOffice =
     \<lparr>users = [(6, \<lparr>name = ''Ann Lee'', email = ''ann@example.com''\<rparr>),
               (7, \<lparr>name = ''Jane Smith'', email = ''jane@example.com''\<rparr>),
               (8, \<lparr>name = ''Max Roe'', email = ''max@example.com''\<rparr>),
               (9, \<lparr>name = ''John Doe'', email = ''john@example.com''\<rparr>)],
      events = [(41, conference)], bookings = [], jobs = []\<rparr>"

definition draftOffice :: db where
  "draftOffice = boxOffice\<lparr>events := [(41, conference\<lparr>status := ''draft''\<rparr>)]\<rparr>"

definition lastTicket :: db where
  "lastTicket =
     boxOffice\<lparr>events := [(41, conference\<lparr>totalTickets := 1, availableTickets := 1\<rparr>)]\<rparr>"




definition generated0 :: Generated where
  "generated0 = \<lparr>newId = 100, now = 17, randomSuffix = ''K3J9X0QZA''\<rparr>"

definition generated1 :: Generated where
  "generated1 = \<lparr>newId = 101, now = 18, randomSuffix = ''P0L2M4N6B''\<rparr>"

definition ticketRequest :: "objectId \<Rightarrow> rat \<Rightarrow> BookingRequest" where
  "ticketRequest uid q =
     \<lparr>bookingBody = \<lparr>bodyEventId = Some 41, bodyQuantity = Some q\<rparr>, bookingUser = uid\<rparr>"

definition conferenceBody :: CreateEventBody where
  "conferenceBody =
     \<lparr>ceTitle = Some ''Tech Conference 2026'',
      ceDescription = Some ''Annual technology conference'', ceDate = Some 1790000000000,
      ceLocation = Some ''Convention Center'', ceTotalTickets = Some 10,
      ceTicketPrice = Some 50, ceCategory = Some ''technology''\<rparr>"

definition emptyUpdate :: UpdateEventBody where
  "emptyUpdate =
     \<lparr>ueTitle = None, ueDescription = None, ueDate = None, ueLocation = None,
      ueTotalTickets = None, ueTicketPrice = None, ueStatus = None, ueCategory = None\<rparr>"



definition generated2 :: Generated where
  "generated2 = \<lparr>newId = 102, now = 19, randomSuffix = ''Z9Y8X7W6V''\<rparr>"

text \<open>Four requests, each valid and each served: the organizer creates and publishes
  the conference, a customer books five tickets, the organizer lowers
  \<^verbatim>\<open>totalTickets\<close> to three.\<close>

definition shrinkScenario :: "operation list" where
  "shrinkScenario =
     [CreateEvent 41 7 conferenceBody, PublishEvent 41 7,
      BookTickets generated0 (ticketRequest 9 5),
      UpdateEvent 41 7 (emptyUpdate\<lparr>ueTotalTickets := Some 3\<rparr>)]"

text \<open>The end-to-end scenario of the specification.\<close>

definition endToEndScenario :: "operation list" where
  "endToEndScenario =
     [CreateEvent 41 7 conferenceBody, PublishEvent 41 7,
      BookTickets generated0 (ticketRequest 9 3), CancelBooking 100 9,
      BookTickets generated1 (ticketRequest 9 10),
      BookTickets generated2 (ticketRequest 6 1)]"

text \<open>Two customers ask for the last ticket at the same time.\<close>

definition lastTicketRequests :: "pendingBooking list" where
  "lastTicketRequests =
     [Received generated0 (ticketRequest 9 1), Received generated1 (ticketRequest 6 1)]"

text \<open>The events a response lists.\<close>

fun listedEvents :: "response \<Rightarrow> Event list" where
  "listedEvents (Response c (EventList xs)) = map (\<lambda>x. fst (snd x)) xs"
| "listedEvents (Response c other) = []"

section \<open>The inventory invariant\<close>

text \<open>Every ticket of a stored event is either available or held by a booking of the event
  that is not cancelled; the stored documents satisfy their schemas, the bookings have
  distinct ids and the event of each is stored.\<close>

definition accounted :: "db \<Rightarrow> bool" where
  "accounted s =
     (distinct (map fst (bookings s))
      \<and> (\<forall>i e. findById (events s) i = Some e \<longrightarrow>
             eventSchema_valid e \<and> availableTickets e + soldTickets s i = totalTickets e)
      \<and> (\<forall>j b. findById (bookings s) j = Some b \<longrightarrow>
             bookingSchema_valid b \<and> findById (events s) (event b) \<noteq> None))"

definition neverNegative :: "db \<Rightarrow> bool" where
  "neverNegative s = (\<forall>i e. findById (events s) i = Some e \<longrightarrow> 0 \<le> availableTickets e)"

text \<open>An update that asks for fewer tickets in total than are sold at that moment.\<close>

fun lowersBelowSold :: "db \<Rightarrow> operation \<Rightarrow> bool" where
  "lowersBelowSold s (UpdateEvent eid uid b) =
     (case ueTotalTickets b of None \<Rightarrow> False | Some q \<Rightarrow> q < of_int (soldTickets s eid))"
| "lowersBelowSold s (CreateEvent new uid b) = False"
| "lowersBelowSold s (PublishEvent eid uid) = False"
| "lowersBelowSold s (BookTickets g req) = False"
| "lowersBelowSold s (CancelBooking bid uid) = False"

fun coversSold :: "db \<Rightarrow> operation list \<Rightarrow> bool" where
  "coversSold s [] = True"
| "coversSold s (x # xs) = (\<not> lowersBelowSold s x \<and> coversSold (snd (perform s x)) xs)"

section \<open>Properties of the store\<close>

lemma findById_update:
  "findById (AList.update i d coll) j = (if j = i then Some d else findById coll j)"
  by (simp add: findById_def update_conv')

lemma findById_append:
  "findById coll i = None \<Longrightarrow>
   findById (coll @ [(i, d)]) j = (if j = i then Some d else findById coll j)"
  by (auto simp add: findById_def map_add_def split: option.splits)

lemma update_same: "findById coll i = Some d \<Longrightarrow> AList.update i d coll = coll"
  by (simp add: findById_def update_triv)

lemma reference_not_empty: "generateBookingReference g \<noteq> []"
  by (simp add: generateBookingReference_def)

section \<open>Booking tickets\<close>

lemma bookingSchema_validate_ok:
  "bodyEventId b = Some eid \<Longrightarrow> bodyQuantity b = Some (of_int n) \<Longrightarrow> 1 \<le> n \<Longrightarrow>
   bookingSchema_validate b = Inr \<lparr>valueEventId = eid, valueQuantity = n\<rparr>"
  by (simp add: bookingSchema_validate_def joiIntegerMin_def isInteger_def)

text \<open>The whole effect of a booking that is accepted: the response, the booking appended
  to its collection, the event written back with fewer tickets, the confirmation job queued.
  The stored event satisfies its schema, as every stored event does, and the ObjectId and
  the reference generated for the booking are new.\<close>

lemma bookTickets_accepts:
  assumes body: "bodyEventId (bookingBody req) = Some eid"
      "bodyQuantity (bookingBody req) = Some (of_int n)" "1 \<le> n"
    and ev: "findById (events s) eid = Some ev" "eventSchema_valid ev"
    and pub: "status ev = ''published''"
    and avail: "n \<le> availableTickets ev"
    and fresh: "findById (bookings s) (newId g) = None"
      "generateBookingReference g \<notin> set (map (\<lambda>p. bookingReference (snd p)) (bookings s))"
  shows "bookTickets s g req =
     (Response 201 (BookingCreated ''Booking created successfully''
        \<lparr>sId = newId g, sBookingReference = generateBookingReference g, sQuantity = n,
         sTotalPrice = ticketPrice ev * of_int n, sStatus = ''confirmed''\<rparr>),
      s\<lparr>bookings := bookings s @ [(newId g,
           \<lparr>customer = bookingUser req, event = eid, quantity = n,
            totalPrice = ticketPrice ev * of_int n, bookingStatus = ''confirmed'',
            bookingReference = generateBookingReference g\<rparr>)],
        events := AList.update eid (ev\<lparr>availableTickets := availableTickets ev - n\<rparr>)
                    (events s),
        jobs := jobs s @ [(''booking-confirmation'',
           \<lparr>jobBookingId = newId g, jobCustomerId = bookingUser req, jobEventId = eid,
            jobQuantity = n, jobBookingReference = generateBookingReference g\<rparr>)]\<rparr>)"
proof -
  have v: "bookingSchema_validate (bookingBody req)
             = Inr \<lparr>valueEventId = eid, valueQuantity = n\<rparr>"
    using body by (rule bookingSchema_validate_ok)
  have price: "0 \<le> ticketPrice ev * of_int n"
    using ev(2) body(3) by (simp add: eventSchema_valid_def)
  have valid': "eventSchema_valid (ev\<lparr>availableTickets := availableTickets ev - n\<rparr>)"
    using ev(2) by (simp add: eventSchema_valid_def)
  show ?thesis
    unfolding bookTickets_def v
    using ev(1) pub avail fresh price reference_not_empty valid' body(3)
    by (simp add: insertBooking_def saveEvent_def bookingSchema_valid_def Let_def)
qed



text \<open>A request that names a stored event that is not published is answered 400 and
  changes nothing, whatever its quantity is.\<close>

lemma bookTickets_unpublished_any_quantity:
  assumes "bodyEventId (bookingBody req) = Some eid" "findById (events s) eid = Some ev"
    "status ev \<noteq> ''published''"
  shows "code (fst (bookTickets s g req)) = 400 \<and> snd (bookTickets s g req) = s"
  using assms
  by (auto simp add: bookTickets_def bookingSchema_validate_def split: option.splits sum.splits)




section \<open>The rendering of a count\<close>

text \<open>The message of a refused booking renders the remaining count in decimal; two counts
  with the same rendering are the same count.\<close>

lemma digit_inj:
  assumes "a < 10" "b < 10" "''0123456789'' ! a = ''0123456789'' ! b"
  shows "a = b"
proof -
  have "distinct ''0123456789''" by simp
  moreover have "a < length ''0123456789''" "b < length ''0123456789''"
    using assms(1,2) by simp_all
  ultimately show ?thesis
    using assms(3) by (simp only: nth_eq_iff_index_eq)
qed

lemma showNat_digits: "set (showNat n) \<subseteq> set ''0123456789''"
proof (induction n rule: showNat.induct)
  case (1 n)
  show ?case
  proof (cases "n < 10")
    case True
    then have "''0123456789'' ! n \<in> set ''0123456789''"
      by (intro nth_mem) simp
    with True show ?thesis by (subst showNat.simps) simp
  next
    case False
    have "n mod 10 < length ''0123456789''" by simp
    then have "''0123456789'' ! (n mod 10) \<in> set ''0123456789''"
      by (rule nth_mem)
    with False 1 show ?thesis by (subst showNat.simps) simp
  qed
qed

lemma showNat_length: "length (showNat n) = Suc 0 \<longleftrightarrow> n < 10"
proof (cases "n < 10")
  case True
  then show ?thesis by (subst showNat.simps) simp
next
  case False
  then have "n div 10 \<noteq> 0" by simp
  have "showNat (n div 10) \<noteq> []"
    by (subst showNat.simps) simp
  then have "length (showNat (n div 10)) \<noteq> 0" by simp
  with False show ?thesis by (subst showNat.simps) simp
qed

lemma showNat_inj: "showNat n = showNat m \<Longrightarrow> n = m"
proof (induction n arbitrary: m rule: showNat.induct)
  case (1 n)
  show ?case
  proof (cases "n < 10")
    case True
    then have "length (showNat n) = Suc 0"
      by (simp only: showNat_length)
    then have "length (showNat m) = Suc 0"
      using "1.prems" by simp
    then have m: "m < 10"
      by (simp only: showNat_length)
    from "1.prems" True m have "''0123456789'' ! n = ''0123456789'' ! m"
      by (subst (asm) showNat.simps, subst (asm) (2) showNat.simps) simp
    with True m show ?thesis by (rule digit_inj)
  next
    case False
    then have "length (showNat n) \<noteq> Suc 0"
      by (simp only: showNat_length) simp
    then have "length (showNat m) \<noteq> Suc 0"
      using "1.prems" by simp
    then have m: "\<not> m < 10"
      by (simp only: showNat_length) simp
    from "1.prems" False m have
      "showNat (n div 10) @ [''0123456789'' ! (n mod 10)]
        = showNat (m div 10) @ [''0123456789'' ! (m mod 10)]"
      by (subst (asm) showNat.simps, subst (asm) (2) showNat.simps) simp
    then have front: "showNat (n div 10) = showNat (m div 10)"
      and last: "''0123456789'' ! (n mod 10) = ''0123456789'' ! (m mod 10)"
      by simp_all
    from False front have "n div 10 = m div 10"
      by (rule "1.IH")
    moreover have "n mod 10 = m mod 10"
      using _ _ last by (rule digit_inj) simp_all
    ultimately show ?thesis
      by (metis div_mult_mod_eq)
  qed
qed

lemma showInt_inj: "showInt i = showInt j \<Longrightarrow> i = j"
proof -
  assume eq: "showInt i = showInt j"
  have digit: "hd (showNat n) \<noteq> CHR ''-''" for n
  proof -
    have "showNat n \<noteq> []" by (subst showNat.simps) simp
    then have "hd (showNat n) \<in> set (showNat n)" by simp
    with showNat_digits [of n] have "hd (showNat n) \<in> set ''0123456789''" by blast
    then show ?thesis by auto
  qed
  show "i = j"
  proof (cases "i < 0")
    case True
    show ?thesis
    proof (cases "j < 0")
      case j: True
      with True eq have "showNat (nat (- i)) = showNat (nat (- j))"
        by (simp add: showInt_def)
      then have "nat (- i) = nat (- j)" by (rule showNat_inj)
      with True j show ?thesis by simp
    next
      case j: False
      with True eq have "CHR ''-'' # showNat (nat (- i)) = showNat (nat j)"
        by (simp add: showInt_def)
      then have "hd (showNat (nat j)) = CHR ''-''"
        by (metis list.sel(1))
      with digit show ?thesis by blast
    qed
  next
    case False
    show ?thesis
    proof (cases "j < 0")
      case j: True
      with False eq have "showNat (nat i) = CHR ''-'' # showNat (nat (- j))"
        by (simp add: showInt_def)
      then have "hd (showNat (nat i)) = CHR ''-''"
        by simp
      with digit show ?thesis by blast
    next
      case j: False
      with False eq have "showNat (nat i) = showNat (nat j)"
        by (simp add: showInt_def)
      then have "nat i = nat j" by (rule showNat_inj)
      with False j show ?thesis by simp
    qed
  qed
qed

section \<open>Cancelling a booking\<close>



text \<open>When the event of the booking is no longer stored (\<^verbatim>\<open>deleteEvent\<close> removes an event
  and keeps its bookings), the booking is saved as cancelled and the answer is 500.\<close>

lemma cancelBooking_event_deleted:
  assumes "findById (bookings s) bid = Some b" "customer b = uid"
    "bookingStatus b \<noteq> ''cancelled''" "bookingSchema_valid b"
    "findById (events s) (event b) = None"
  shows "cancelBooking s bid uid =
           (Response 500 (Failure ''Error cancelling booking'' TypeError),
            s\<lparr>bookings := AList.update bid (b\<lparr>bookingStatus := ''cancelled''\<rparr>) (bookings s)\<rparr>)"
  using assms by (simp add: cancelBooking_def saveBooking_def bookingSchema_valid_def)

text \<open>Claim C5. Booking q tickets (1 \<le> q \<le> a) of a published event with a tickets
  available and then cancelling the booking just made, by the customer who made it, is
  answered 200 and leaves the event as it was before the booking, with a tickets
  available; the collection of events is the one before the booking.\<close>

theorem book_then_cancel:
  assumes body: "bodyEventId (bookingBody req) = Some eid"
      "bodyQuantity (bookingBody req) = Some (of_int q)" "1 \<le> q"
    and ev: "findById (events s) eid = Some ev" "eventSchema_valid ev"
    and pub: "status ev = ''published''"
    and avail: "availableTickets ev = a" "q \<le> a"
    and fresh: "findById (bookings s) (newId g) = None"
      "generateBookingReference g \<notin> set (map (\<lambda>p. bookingReference (snd p)) (bookings s))"
  shows "code (fst (bookTickets s g req)) = 201
       \<and> code (fst (cancelBooking (snd (bookTickets s g req)) (newId g) (bookingUser req))) = 200
       \<and> map_option availableTickets
           (findById (events (snd (cancelBooking (snd (bookTickets s g req)) (newId g)
              (bookingUser req)))) eid) = Some a
       \<and> events (snd (cancelBooking (snd (bookTickets s g req)) (newId g) (bookingUser req)))
           = events s"
proof -
  have le: "q \<le> availableTickets ev"
    using avail by simp
  have booked: "bookTickets s g req =
     (Response 201 (BookingCreated ''Booking created successfully''
        \<lparr>sId = newId g, sBookingReference = generateBookingReference g, sQuantity = q,
         sTotalPrice = ticketPrice ev * of_int q, sStatus = ''confirmed''\<rparr>),
      s\<lparr>bookings := bookings s @ [(newId g,
           \<lparr>customer = bookingUser req, event = eid, quantity = q,
            totalPrice = ticketPrice ev * of_int q, bookingStatus = ''confirmed'',
            bookingReference = generateBookingReference g\<rparr>)],
        events := AList.update eid (ev\<lparr>availableTickets := availableTickets ev - q\<rparr>)
                    (events s),
        jobs := jobs s @ [(''booking-confirmation'',
           \<lparr>jobBookingId = newId g, jobCustomerId = bookingUser req, jobEventId = eid,
            jobQuantity = q, jobBookingReference = generateBookingReference g\<rparr>)]\<rparr>)"
    using body ev pub le fresh by (rule bookTickets_accepts)
  have price: "0 \<le> ticketPrice ev * of_int q"
    using ev(2) body(3) by (simp add: eventSchema_valid_def)
  have same: "AList.update eid ev (events s) = events s"
    using ev(1) by (rule update_same)
  show ?thesis
    unfolding avail(1) [symmetric]
    using ev fresh(1) body(3) price reference_not_empty same
    by (simp add: booked cancelBooking_def saveBooking_def saveEvent_def
        bookingSchema_valid_def eventSchema_valid_def findById_update findById_append)
qed

theorem book_then_cancel_witness:
  "code (fst (bookTickets boxOffice generated0 (ticketRequest 9 3))) = 201
   \<and> code (fst (cancelBooking (snd (bookTickets boxOffice generated0 (ticketRequest 9 3)))
        100 9)) = 200
   \<and> map_option availableTickets
       (findById (events (snd (cancelBooking
          (snd (bookTickets boxOffice generated0 (ticketRequest 9 3))) 100 9))) 41) = Some 10
   \<and> events (snd (cancelBooking (snd (bookTickets boxOffice generated0 (ticketRequest 9 3)))
        100 9)) = [(41, conference)]"
  using book_then_cancel [of "ticketRequest 9 3" 41 3 boxOffice conference 10 generated0]
  by (simp add: ticketRequest_def boxOffice_def conference_def generated0_def
      findById_def eventSchema_valid_def)

section \<open>Validation of an update\<close>

lemma joiOptional_Inr:
  "joiOptional x check = Inr y \<longleftrightarrow>
     (x = None \<and> y = None) \<or> (\<exists>a c. x = Some a \<and> check a = Inr c \<and> y = Some c)"
  by (cases x) (auto simp add: joiOptional_def split: sum.splits)

lemma andThen_Inr: "andThen r k = Inr y \<longleftrightarrow> (\<exists>x. r = Inr x \<and> k x = Inr y)"
  by (cases r) (auto simp add: andThen_def)

lemma joiIntegerMin_Inr: "joiIntegerMin key m q = Inr n \<longleftrightarrow> (q = of_int n \<and> m \<le> n)"
  by (auto simp add: joiIntegerMin_def isInteger_def)

lemma updateEventSchema_validate_Inr:
  assumes "updateEventSchema_validate b = Inr v"
  obtains t d dt l n p st c where
    "joiOptional (ueTitle b) (joiString ''title'') = Inr t"
    "joiOptional (ueDescription b) (joiString ''description'') = Inr d"
    "joiOptional (ueDate b) joiDate = Inr dt"
    "joiOptional (ueLocation b) (joiString ''location'') = Inr l"
    "joiOptional (ueTotalTickets b) (joiIntegerMin ''totalTickets'' 1) = Inr n"
    "joiOptional (ueTicketPrice b) (joiNumberMin ''ticketPrice'' 0) = Inr p"
    "joiOptional (ueStatus b)
       (joiValid ''status'' [''draft'', ''published'', ''cancelled'']) = Inr st"
    "joiOptional (ueCategory b) (joiString ''category'') = Inr c"
    "v = \<lparr>uvTitle = t, uvDescription = d, uvDate = dt, uvLocation = l,
          uvTotalTickets = n, uvTicketPrice = p, uvStatus = st, uvCategory = c\<rparr>"
  using assms unfolding updateEventSchema_validate_def andThen_Inr by (elim exE conjE) simp

text \<open>What a validated update body is known to hold.\<close>

lemma updateEventSchema_validate_sound:
  assumes "updateEventSchema_validate b = Inr v"
  shows "case uvDescription v of None \<Rightarrow> True | Some d \<Rightarrow> d \<noteq> []"
    and "case uvLocation v of None \<Rightarrow> True | Some l \<Rightarrow> l \<noteq> []"
    and "case uvTotalTickets v of None \<Rightarrow> True | Some n \<Rightarrow> 1 \<le> n"
    and "case uvTicketPrice v of None \<Rightarrow> True | Some p \<Rightarrow> 0 \<le> p"
    and "case uvStatus v of None \<Rightarrow> True
           | Some st \<Rightarrow> st \<in> set [''draft'', ''published'', ''cancelled'']"
    and "ueTotalTickets b = Some (of_int k) \<Longrightarrow> uvTotalTickets v = Some k"
    and "ueTotalTickets b = None \<Longrightarrow> uvTotalTickets v = None"
proof -
  from assms obtain t d dt l n p st c where
    d: "joiOptional (ueDescription b) (joiString ''description'') = Inr d" and
    l: "joiOptional (ueLocation b) (joiString ''location'') = Inr l" and
    n: "joiOptional (ueTotalTickets b) (joiIntegerMin ''totalTickets'' 1) = Inr n" and
    p: "joiOptional (ueTicketPrice b) (joiNumberMin ''ticketPrice'' 0) = Inr p" and
    st: "joiOptional (ueStatus b)
           (joiValid ''status'' [''draft'', ''published'', ''cancelled'']) = Inr st" and
    v: "v = \<lparr>uvTitle = t, uvDescription = d, uvDate = dt, uvLocation = l,
            uvTotalTickets = n, uvTicketPrice = p, uvStatus = st, uvCategory = c\<rparr>"
    by (rule updateEventSchema_validate_Inr)
  show "case uvDescription v of None \<Rightarrow> True | Some d \<Rightarrow> d \<noteq> []"
    using d by (auto simp add: v joiOptional_Inr joiString_def split: if_splits)
  show "case uvLocation v of None \<Rightarrow> True | Some l \<Rightarrow> l \<noteq> []"
    using l by (auto simp add: v joiOptional_Inr joiString_def split: if_splits)
  show "case uvTotalTickets v of None \<Rightarrow> True | Some n \<Rightarrow> 1 \<le> n"
    using n by (auto simp add: v joiOptional_Inr joiIntegerMin_Inr)
  show "case uvTicketPrice v of None \<Rightarrow> True | Some p \<Rightarrow> 0 \<le> p"
    using p by (auto simp add: v joiOptional_Inr joiNumberMin_def split: if_splits)
  show "case uvStatus v of None \<Rightarrow> True
           | Some st \<Rightarrow> st \<in> set [''draft'', ''published'', ''cancelled'']"
    using st by (auto simp add: v joiOptional_Inr joiValid_def split: if_splits)
  show "uvTotalTickets v = Some k" if "ueTotalTickets b = Some (of_int k)"
    using n that by (auto simp add: v joiOptional_Inr joiIntegerMin_Inr)
  show "uvTotalTickets v = None" if "ueTotalTickets b = None"
    using n that by (auto simp add: v joiOptional_Inr)
qed

text \<open>The document an accepted update assigns satisfies the Event schema, unless the title
  it supplies is blank: the schema trims the title and then requires it.\<close>

lemma assignEvent_valid:
  assumes "updateEventSchema_validate b = Inr v" "eventSchema_valid ev"
    "case uvTitle v of None \<Rightarrow> True | Some t \<Rightarrow> trim t \<noteq> []"
  shows "eventSchema_valid (assignEvent ev v a)"
  using updateEventSchema_validate_sound(1-5) [OF assms(1)] assms(2,3)
  by (simp add: eventSchema_valid_def assignEvent_def split: option.splits)

section \<open>Ownership\<close>




text \<open>Validation comes first for every caller: an update whose body fails validation is
  answered 400 and changes nothing.\<close>

lemma updateEvent_invalid_body:
  "updateEventSchema_validate b = Inl err \<Longrightarrow>
   updateEvent s eid uid b = (Response 400 (ValidationMessage err), s)"
  by (simp add: updateEvent_def)

text \<open>Whatever the body, an update by an account that does not own the stored event is
  answered 400 or 403, never 404, and changes nothing.\<close>

lemma updateEvent_not_owner_any_body:
  assumes "findById (events s) eid = Some ev" "organizer ev \<noteq> uid"
  shows "code (fst (updateEvent s eid uid b)) \<in> {400, 403} \<and> snd (updateEvent s eid uid b) = s"
  using assms by (cases "updateEventSchema_validate b") (simp_all add: updateEvent_def)

text \<open>The view of a booking whose event is no longer stored, asked by an account that is not
  its customer, is answered 500: \<^verbatim>\<open>booking.event\<close> populates as \<^verbatim>\<open>null\<close>.\<close>

lemma getBookingById_event_deleted:
  assumes "findById (bookings s) bid = Some bk" "customer bk \<noteq> uid"
    "findById (users s) (customer bk) = Some cu" "findById (events s) (event bk) = None"
  shows "getBookingById s bid uid = (Response 500 (Failure ''Error fetching booking'' TypeError), s)"
  using assms by (simp add: getBookingById_def)

section \<open>Updating and publishing an event\<close>




text \<open>Every accepted update keeps the number of booked tickets, also one that leaves
  \<^verbatim>\<open>totalTickets\<close> as it is.\<close>

lemma updateEvent_booked_unchanged:
  assumes valid: "updateEventSchema_validate b = Inr v"
    and title: "case uvTitle v of None \<Rightarrow> True | Some t \<Rightarrow> trim t \<noteq> []"
    and ev: "findById (events s) eid = Some ev" "organizer ev = uid" "eventSchema_valid ev"
  shows "\<exists>ev'. updateEvent s eid uid b =
           (Response 200 (MessageEvent ''Event updated successfully'' eid ev'),
            s\<lparr>events := AList.update eid ev' (events s)\<rparr>)
         \<and> totalTickets ev' - availableTickets ev' = totalTickets ev - availableTickets ev"
proof (cases "uvTotalTickets v")
  case None
  have ok: "eventSchema_valid (assignEvent ev v None)"
    using valid ev(3) title by (rule assignEvent_valid)
  show ?thesis
    using ev(1,2) None ok
    by (simp add: updateEvent_def valid saveEvent_def Let_def) (simp add: assignEvent_def None)
next
  case (Some n)
  have pos: "1 \<le> n"
    using updateEventSchema_validate_sound(3) [OF valid] Some by simp
  have ok: "eventSchema_valid (assignEvent ev v a)" for a
    using valid ev(3) title by (rule assignEvent_valid)
  show ?thesis
    using ev(1,2) Some pos ok
    by (cases "n = totalTickets ev")
      (simp_all add: updateEvent_def valid saveEvent_def Let_def, simp_all add: assignEvent_def Some)
qed

text \<open>Claim C9. A publish request by the organizer of a stored event is answered 200 and
  stores the event with the status \<^verbatim>\<open>published\<close>, whatever its status was, and with every
  other field as it was; every other document is left alone, and publishing again gives
  the same answer and the same store.\<close>

theorem publishEvent_spec:
  assumes ev: "findById (events s) eid = Some ev" "organizer ev = uid" "eventSchema_valid ev"
  shows "publishEvent s eid uid =
           (Response 200 (MessageEvent ''Event published successfully'' eid
              (ev\<lparr>status := ''published''\<rparr>)),
            s\<lparr>events := AList.update eid (ev\<lparr>status := ''published''\<rparr>) (events s)\<rparr>)
       \<and> findById (events (snd (publishEvent s eid uid))) eid
           = Some \<lparr>title = title ev, description = description ev, organizer = organizer ev,
                   date = date ev, location = location ev, totalTickets = totalTickets ev,
                   availableTickets = availableTickets ev, ticketPrice = ticketPrice ev,
                   status = ''published'', category = category ev\<rparr>
       \<and> publishEvent (snd (publishEvent s eid uid)) eid uid = publishEvent s eid uid"
proof -
  have ok: "eventSchema_valid (ev\<lparr>status := ''published''\<rparr>)"
    using ev(3) by (simp add: eventSchema_valid_def)
  have first: "publishEvent s eid uid =
           (Response 200 (MessageEvent ''Event published successfully'' eid
              (ev\<lparr>status := ''published''\<rparr>)),
            s\<lparr>events := AList.update eid (ev\<lparr>status := ''published''\<rparr>) (events s)\<rparr>)"
    using ev(1,2) ok by (simp add: publishEvent_def saveEvent_def)
  have again: "publishEvent (snd (publishEvent s eid uid)) eid uid = publishEvent s eid uid"
    unfolding first using ev(2) ok
    by (simp add: publishEvent_def saveEvent_def findById_update)
  show ?thesis using first again by (simp add: findById_update)
qed

theorem publishEvent_spec_witness:
  "publishEvent draftOffice 41 7 =
     (Response 200 (MessageEvent ''Event published successfully'' 41 conference), boxOffice)
   \<and> findById (events (snd (publishEvent draftOffice 41 7))) 41 = Some conference
   \<and> publishEvent (snd (publishEvent draftOffice 41 7)) 41 7 = publishEvent draftOffice 41 7"
proof -
  have stored: "findById (events draftOffice) 41 = Some (conference\<lparr>status := ''draft''\<rparr>)"
    by (simp add: draftOffice_def boxOffice_def findById_def)
  have owner: "organizer (conference\<lparr>status := ''draft''\<rparr>) = 7"
    by (simp add: conference_def)
  have ok: "eventSchema_valid (conference\<lparr>status := ''draft''\<rparr>)"
    by (simp add: conference_def eventSchema_valid_def)
  have after: "draftOffice\<lparr>events := AList.update 41 conference (events draftOffice)\<rparr>
      = boxOffice"
    by (simp add: draftOffice_def boxOffice_def)
  have again: "conference\<lparr>status := ''published''\<rparr> = conference"
    by (simp add: conference_def)
  note spec = publishEvent_spec [OF stored owner ok]
  have answer: "publishEvent draftOffice 41 7 =
      (Response 200 (MessageEvent ''Event published successfully'' 41 conference), boxOffice)"
    using spec [THEN conjunct1] by (simp add: after again)
  have kept: "findById (events (snd (publishEvent draftOffice 41 7))) 41 = Some conference"
    by (simp add: answer boxOffice_def findById_def)
  show ?thesis
    using answer kept spec [THEN conjunct2, THEN conjunct2] by (intro conjI)
qed

section \<open>Listing events\<close>



text \<open>With a status parameter the list holds the events of that status.\<close>

lemma getEvents_explicit_status:
  assumes "queryStatus q = Some st"
  shows "\<forall>e \<in> set (listedEvents (fst (getEvents s q))). status e = st"
  using assms by (auto simp add: getEvents_def eventFilter_def)

section \<open>The inventory bounds\<close>

text \<open>The end-to-end scenario of the specification: ten tickets at 50; three booked for
  150, seven left; the booking cancelled, ten left; ten booked, none left; one more asked
  for and refused.\<close>

lemma endToEnd:
  "statusCodes emptyDb endToEndScenario = [201, 200, 201, 200, 201, 400]
   \<and> map_option availableTickets (findById (events (run emptyDb (take 3 endToEndScenario))) 41)
       = Some 7
   \<and> map_option totalPrice (findById (bookings (run emptyDb (take 3 endToEndScenario))) 100)
       = Some 150
   \<and> map_option availableTickets (findById (events (run emptyDb (take 4 endToEndScenario))) 41)
       = Some 10
   \<and> map_option availableTickets (findById (events (run emptyDb (take 5 endToEndScenario))) 41)
       = Some 0
   \<and> fst (perform (run emptyDb (take 5 endToEndScenario)) (endToEndScenario ! 5))
       = Response 400 (Message ''Not enough tickets available. Only 0 remaining'')"
  by code_simp

text \<open>Claim C1: at every state reached by requests to create, update and publish events
  and to book and cancel, served one after the other, every event has
  \<^verbatim>\<open>0 <= availableTickets <= totalTickets\<close>. The code breaks the lower bound. Each of the
  four requests of \<^const>\<open>shrinkScenario\<close> is valid and is served (201, 200, 201, 200);
  after the last one, the update that lowers \<^verbatim>\<open>totalTickets\<close> from 10 to 3 while 5
  tickets are booked, the event is stored with \<^verbatim>\<open>availableTickets = -2\<close>:
  \<^verbatim>\<open>updateEvent\<close> adds the difference of the totals to the counter and checks
  nothing.\<close>

theorem updateEvent_breaks_inventory_bounds:
  "statusCodes emptyDb shrinkScenario = [201, 200, 201, 200]
   \<and> map_option totalTickets (findById (events (run emptyDb shrinkScenario)) 41) = Some 3
   \<and> map_option availableTickets (findById (events (run emptyDb shrinkScenario)) 41)
       = Some (- 2)
   \<and> soldTickets (run emptyDb shrinkScenario) 41 = 5"
  by code_simp

section \<open>Bookings at the same time\<close>

text \<open>A request that runs alone through its four steps is the handler.\<close>

lemma bookTickets_as_steps:
  "runSchedule [0, 0, 0, 0] (s, [Received g req]) =
     (snd (bookTickets s g req), [Responded (fst (bookTickets s g req))])"
proof (cases "bookingSchema_validate (bookingBody req)")
  case (Inl err)
  then show ?thesis by (simp add: bookTickets_def)
next
  case (Inr v)
  show ?thesis
  proof (cases "findById (events s) (valueEventId v)")
    case None
    with Inr show ?thesis by (simp add: bookTickets_def)
  next
    case (Some ev)
    show ?thesis
    proof (cases "status ev \<noteq> ''published'' \<or> availableTickets ev < valueQuantity v")
      case True
      with Inr Some show ?thesis by (auto simp add: bookTickets_def)
    next
      case False
      let ?b = "\<lparr>customer = bookingUser req, event = valueEventId v,
                   quantity = valueQuantity v,
                   totalPrice = ticketPrice ev * of_int (valueQuantity v),
                   bookingStatus = ''confirmed'',
                   bookingReference = generateBookingReference g\<rparr>"
      show ?thesis
      proof (cases "insertBooking (bookings s) (newId g) ?b")
        case (Inl c)
        with Inr Some False show ?thesis by (simp add: bookTickets_def Let_def)
      next
        case bs: (Inr bs)
        with Inr Some False show ?thesis
          by (simp add: bookTickets_def Let_def saveEvent_def saveAvailableTickets_def)
      qed
    qed
  qed
qed

text \<open>Served one after the other, the two requests for the last ticket get one booking:
  the second is refused with nothing remaining.\<close>

lemma last_ticket_in_turn:
  "snd (runSchedule [0, 0, 0, 0, 1, 1, 1, 1] (lastTicket, lastTicketRequests)) =
     [Responded (Response 201 (BookingCreated ''Booking created successfully''
        \<lparr>sId = 100, sBookingReference = ''BK17K3J9X0QZA'', sQuantity = 1, sTotalPrice = 50,
         sStatus = ''confirmed''\<rparr>)),
      Responded (Response 400 (Message ''Not enough tickets available. Only 0 remaining''))]
   \<and> soldTickets (fst (runSchedule [0, 0, 0, 0, 1, 1, 1, 1] (lastTicket, lastTicketRequests))) 41
       = 1"
  by code_simp

text \<open>Claim C7: of concurrent bookings of one event that ask for more tickets than are
  available, only as many succeed as there are tickets and the others are refused for
  lack of capacity. The code oversells. One ticket is available; two requests for one
  ticket each are served in turns, step by step. Both read the event before either writes
  it, both pass the check against one available ticket, both store a confirmed booking and
  both write \<^verbatim>\<open>availableTickets = 0\<close>: two tickets are sold, both requests are answered
  201 and none is refused.\<close>

theorem interleaved_bookings_oversell:
  "map_option availableTickets (findById (events lastTicket) 41) = Some 1
   \<and> snd (runSchedule [0, 1, 0, 1, 0, 1, 0, 1] (lastTicket, lastTicketRequests)) =
       [Responded (Response 201 (BookingCreated ''Booking created successfully''
          \<lparr>sId = 100, sBookingReference = ''BK17K3J9X0QZA'', sQuantity = 1, sTotalPrice = 50,
           sStatus = ''confirmed''\<rparr>)),
        Responded (Response 201 (BookingCreated ''Booking created successfully''
          \<lparr>sId = 101, sBookingReference = ''BK18P0L2M4N6B'', sQuantity = 1, sTotalPrice = 50,
           sStatus = ''confirmed''\<rparr>))]
   \<and> soldTickets (fst (runSchedule [0, 1, 0, 1, 0, 1, 0, 1] (lastTicket, lastTicketRequests))) 41
       = 2
   \<and> map_option availableTickets
       (findById (events (fst (runSchedule [0, 1, 0, 1, 0, 1, 0, 1]
          (lastTicket, lastTicketRequests)))) 41) = Some 0"
  by code_simp

section \<open>What the serialized requests do keep\<close>

lemma soldTickets_events [simp]: "soldTickets (s\<lparr>events := es\<rparr>) i = soldTickets s i"
  by (simp add: soldTickets_def)

lemma soldTickets_jobs [simp]: "soldTickets (s\<lparr>jobs := js\<rparr>) i = soldTickets s i"
  by (simp add: soldTickets_def)

lemma soldTickets_append:
  "soldTickets (s\<lparr>bookings := bookings s @ [(j, b)]\<rparr>) i =
     soldTickets s i
       + (if event b = i \<and> bookingStatus b \<noteq> ''cancelled'' then quantity b else 0)"
  by (simp add: soldTickets_def)

lemma sold_cancel:
  assumes "distinct (map fst bs)" "map_of bs j = Some b" "bookingStatus b \<noteq> ''cancelled''"
  shows "sum_list (map (\<lambda>p. quantity (snd p))
           (filter (\<lambda>p. event (snd p) = i \<and> bookingStatus (snd p) \<noteq> ''cancelled'')
              (AList.update j (b\<lparr>bookingStatus := ''cancelled''\<rparr>) bs)))
       = sum_list (map (\<lambda>p. quantity (snd p))
           (filter (\<lambda>p. event (snd p) = i \<and> bookingStatus (snd p) \<noteq> ''cancelled'') bs))
         - (if event b = i then quantity b else 0)"
  using assms
proof (induction bs)
  case Nil
  then show ?case by simp
next
  case (Cons p bs)
  show ?case
  proof (cases "fst p = j")
    case True
    with Cons.prems have "snd p = b" by simp
    moreover have "AList.update j (b\<lparr>bookingStatus := ''cancelled''\<rparr>) (p # bs)
        = (j, b\<lparr>bookingStatus := ''cancelled''\<rparr>) # bs"
      using True by (cases p) simp
    ultimately show ?thesis
      using Cons.prems(3) by simp
  next
    case False
    with Cons.prems have "distinct (map fst bs)" "map_of bs j = Some b"
      by (auto split: if_splits)
    then have IH: "sum_list (map (\<lambda>p. quantity (snd p))
           (filter (\<lambda>p. event (snd p) = i \<and> bookingStatus (snd p) \<noteq> ''cancelled'')
              (AList.update j (b\<lparr>bookingStatus := ''cancelled''\<rparr>) bs)))
       = sum_list (map (\<lambda>p. quantity (snd p))
           (filter (\<lambda>p. event (snd p) = i \<and> bookingStatus (snd p) \<noteq> ''cancelled'') bs))
         - (if event b = i then quantity b else 0)"
      using Cons.prems(3) by (rule Cons.IH)
    have "AList.update j (b\<lparr>bookingStatus := ''cancelled''\<rparr>) (p # bs)
        = p # AList.update j (b\<lparr>bookingStatus := ''cancelled''\<rparr>) bs"
      using False by (cases p) simp
    then show ?thesis
      using IH by simp
  qed
qed

lemma soldTickets_cancel:
  assumes "distinct (map fst (bookings s))" "findById (bookings s) j = Some b"
    "bookingStatus b \<noteq> ''cancelled''"
  shows "soldTickets (s\<lparr>bookings := AList.update j (b\<lparr>bookingStatus := ''cancelled''\<rparr>)
             (bookings s)\<rparr>) i
       = soldTickets s i - (if event b = i then quantity b else 0)"
  using sold_cancel [of "bookings s" j b i] assms by (simp add: soldTickets_def findById_def)

lemma soldTickets_nonneg:
  assumes "accounted s"
  shows "0 \<le> soldTickets s i"
proof -
  have "0 \<le> quantity (snd p)" if "p \<in> set (bookings s)" for p
  proof -
    from assms have d: "distinct (map fst (bookings s))"
      by (simp add: accounted_def)
    from that d have "findById (bookings s) (fst p) = Some (snd p)"
      by (simp add: findById_def)
    with assms have "bookingSchema_valid (snd p)"
      by (simp add: accounted_def)
    then show ?thesis by (simp add: bookingSchema_valid_def)
  qed
  then show ?thesis
    unfolding soldTickets_def by (intro sum_list_nonneg) auto
qed

lemma soldTickets_unreferenced:
  assumes "accounted s" "findById (events s) i = None"
  shows "soldTickets s i = 0"
proof -
  have "event (snd p) \<noteq> i" if "p \<in> set (bookings s)" for p
  proof -
    from assms(1) have d: "distinct (map fst (bookings s))"
      by (simp add: accounted_def)
    from that d have "findById (bookings s) (fst p) = Some (snd p)"
      by (simp add: findById_def)
    with assms(1) have "findById (events s) (event (snd p)) \<noteq> None"
      by (simp add: accounted_def)
    with assms(2) show ?thesis by auto
  qed
  then have "filter (\<lambda>p. event (snd p) = i \<and> bookingStatus (snd p) \<noteq> ''cancelled'')
      (bookings s) = []"
    by (simp add: filter_empty_conv)
  then show ?thesis by (simp add: soldTickets_def)
qed

lemma accounted_emptyDb: "accounted emptyDb"
  by (simp add: accounted_def emptyDb_def findById_def)

text \<open>No more tickets are available than the event has in total, whatever was updated.\<close>

lemma accounted_upper_bound:
  assumes "accounted s" "findById (events s) i = Some e"
  shows "availableTickets e \<le> totalTickets e"
    and "availableTickets e = totalTickets e - soldTickets s i"
proof -
  from assms have "availableTickets e + soldTickets s i = totalTickets e"
    by (simp add: accounted_def)
  with soldTickets_nonneg [OF assms(1), of i]
  show "availableTickets e \<le> totalTickets e"
    and "availableTickets e = totalTickets e - soldTickets s i"
    by simp_all
qed

text \<open>What a handler can leave behind, when the stored events satisfy their schema: the
  store as it was, or the one result of its success.\<close>

lemma bookingSchema_validate_Inr:
  assumes "bookingSchema_validate b = Inr v"
  shows "1 \<le> valueQuantity v"
  using assms
  by (auto simp add: bookingSchema_validate_def joiIntegerMin_def
      split: option.splits if_splits)

lemma bookTickets_outcome:
  assumes "accounted s"
  obtains (unchanged) "snd (bookTickets s g req) = s"
  | (booked) eid n ev where
      "findById (events s) eid = Some ev" "1 \<le> n" "n \<le> availableTickets ev"
      "findById (bookings s) (newId g) = None"
      "snd (bookTickets s g req) =
         s\<lparr>bookings := bookings s @ [(newId g,
              \<lparr>customer = bookingUser req, event = eid, quantity = n,
               totalPrice = ticketPrice ev * of_int n, bookingStatus = ''confirmed'',
               bookingReference = generateBookingReference g\<rparr>)],
           events := AList.update eid (ev\<lparr>availableTickets := availableTickets ev - n\<rparr>)
                       (events s),
           jobs := jobs s @ [(''booking-confirmation'',
              \<lparr>jobBookingId = newId g, jobCustomerId = bookingUser req, jobEventId = eid,
               jobQuantity = n, jobBookingReference = generateBookingReference g\<rparr>)]\<rparr>"
proof (cases "bookingSchema_validate (bookingBody req)")
  case (Inl err)
  then have "snd (bookTickets s g req) = s" by (simp add: bookTickets_def)
  then show ?thesis by (rule unchanged)
next
  case (Inr v)
  show ?thesis
  proof (cases "findById (events s) (valueEventId v)")
    case None
    with Inr have "snd (bookTickets s g req) = s" by (simp add: bookTickets_def)
    then show ?thesis by (rule unchanged)
  next
    case (Some ev)
    show ?thesis
    proof (cases "status ev \<noteq> ''published'' \<or> availableTickets ev < valueQuantity v")
      case True
      with Inr Some have "snd (bookTickets s g req) = s" by (auto simp add: bookTickets_def)
      then show ?thesis by (rule unchanged)
    next
      case False
      let ?b = "\<lparr>customer = bookingUser req, event = valueEventId v,
                   quantity = valueQuantity v,
                   totalPrice = ticketPrice ev * of_int (valueQuantity v),
                   bookingStatus = ''confirmed'',
                   bookingReference = generateBookingReference g\<rparr>"
      show ?thesis
      proof (cases "insertBooking (bookings s) (newId g) ?b")
        case (Inl c)
        with Inr Some False have "snd (bookTickets s g req) = s"
          by (simp add: bookTickets_def Let_def)
        then show ?thesis by (rule unchanged)
      next
        case bs: (Inr bs)
        then have fresh: "findById (bookings s) (newId g) = None"
          and bs_eq: "bs = bookings s @ [(newId g, ?b)]"
          by (auto simp add: insertBooking_def split: if_splits)
        have "eventSchema_valid ev"
          using assms Some by (simp add: accounted_def)
        then have ok: "eventSchema_valid
            (ev\<lparr>availableTickets := availableTickets ev - valueQuantity v\<rparr>)"
          by (simp add: eventSchema_valid_def)
        have result: "snd (bookTickets s g req) =
            s\<lparr>bookings := bookings s @ [(newId g, ?b)],
              events := AList.update (valueEventId v)
                (ev\<lparr>availableTickets := availableTickets ev - valueQuantity v\<rparr>) (events s),
              jobs := jobs s @ [(''booking-confirmation'',
                \<lparr>jobBookingId = newId g, jobCustomerId = bookingUser req,
                 jobEventId = valueEventId v, jobQuantity = valueQuantity v,
                 jobBookingReference = generateBookingReference g\<rparr>)]\<rparr>"
          using Inr Some False bs ok
          by (simp add: bookTickets_def Let_def saveEvent_def bs_eq)
        show ?thesis
          using Some bookingSchema_validate_Inr [OF Inr] _ fresh result
        proof (rule booked)
          show "valueQuantity v \<le> availableTickets ev" using False by simp
        qed
      qed
    qed
  qed
qed

lemma cancelBooking_outcome:
  assumes "accounted s"
  obtains (unchanged) "snd (cancelBooking s bid uid) = s"
  | (cancelled) b ev where
      "findById (bookings s) bid = Some b" "bookingStatus b \<noteq> ''cancelled''"
      "findById (events s) (event b) = Some ev"
      "snd (cancelBooking s bid uid) =
         s\<lparr>bookings := AList.update bid (b\<lparr>bookingStatus := ''cancelled''\<rparr>) (bookings s),
           events := AList.update (event b)
             (ev\<lparr>availableTickets := availableTickets ev + quantity b\<rparr>) (events s)\<rparr>"
proof (cases "findById (bookings s) bid")
  case None
  then have "snd (cancelBooking s bid uid) = s" by (simp add: cancelBooking_def)
  then show ?thesis by (rule unchanged)
next
  case (Some b)
  show ?thesis
  proof (cases "customer b \<noteq> uid \<or> bookingStatus b = ''cancelled''")
    case True
    with Some have "snd (cancelBooking s bid uid) = s" by (auto simp add: cancelBooking_def)
    then show ?thesis by (rule unchanged)
  next
    case False
    from assms Some have b: "bookingSchema_valid b" "findById (events s) (event b) \<noteq> None"
      by (simp_all add: accounted_def)
    then obtain ev where ev: "findById (events s) (event b) = Some ev"
      by auto
    with assms have "eventSchema_valid ev"
      by (simp add: accounted_def)
    then have ok: "eventSchema_valid (ev\<lparr>availableTickets := availableTickets ev + quantity b\<rparr>)"
      by (simp add: eventSchema_valid_def)
    have ok': "bookingSchema_valid (b\<lparr>bookingStatus := ''cancelled''\<rparr>)"
      using b(1) by (simp add: bookingSchema_valid_def)
    have "snd (cancelBooking s bid uid) =
         s\<lparr>bookings := AList.update bid (b\<lparr>bookingStatus := ''cancelled''\<rparr>) (bookings s),
           events := AList.update (event b)
             (ev\<lparr>availableTickets := availableTickets ev + quantity b\<rparr>) (events s)\<rparr>"
      using Some False ev ok ok' by (simp add: cancelBooking_def saveBooking_def saveEvent_def)
    with Some False ev show ?thesis by (intro cancelled) auto
  qed
qed

lemma createEvent_outcome:
  obtains (unchanged) "snd (createEvent s new uid b) = s"
  | (created) ev where
      "findById (events s) new = None" "eventSchema_valid ev"
      "availableTickets ev = totalTickets ev"
      "snd (createEvent s new uid b) = s\<lparr>events := events s @ [(new, ev)]\<rparr>"
proof (cases "createEventSchema_validate b")
  case (Inl err)
  then have "snd (createEvent s new uid b) = s" by (simp add: createEvent_def)
  then show ?thesis by (rule unchanged)
next
  case (Inr v)
  let ?ev = "\<lparr>title = trim (cvTitle v), description = cvDescription v, organizer = uid,
               date = cvDate v, location = cvLocation v, totalTickets = cvTotalTickets v,
               availableTickets = cvTotalTickets v, ticketPrice = cvTicketPrice v,
               status = ''draft'', category = map_option trim (cvCategory v)\<rparr>"
  show ?thesis
  proof (cases "insertEvent (events s) new ?ev")
    case (Inl c)
    with Inr have "snd (createEvent s new uid b) = s" by (simp add: createEvent_def Let_def)
    then show ?thesis by (rule unchanged)
  next
    case es: (Inr es)
    then have "findById (events s) new = None" "eventSchema_valid ?ev"
      "es = events s @ [(new, ?ev)]"
      by (auto simp add: insertEvent_def split: if_splits)
    moreover have "availableTickets ?ev = totalTickets ?ev" by simp
    moreover have "snd (createEvent s new uid b) = s\<lparr>events := es\<rparr>"
      using Inr es by (simp add: createEvent_def Let_def)
    ultimately show ?thesis by (intro created [of ?ev]) simp_all
  qed
qed

lemma publishEvent_outcome:
  obtains (unchanged) "snd (publishEvent s eid uid) = s"
  | (published) ev where
      "findById (events s) eid = Some ev" "eventSchema_valid (ev\<lparr>status := ''published''\<rparr>)"
      "snd (publishEvent s eid uid) =
         s\<lparr>events := AList.update eid (ev\<lparr>status := ''published''\<rparr>) (events s)\<rparr>"
proof (cases "findById (events s) eid")
  case None
  then have "snd (publishEvent s eid uid) = s" by (simp add: publishEvent_def)
  then show ?thesis by (rule unchanged)
next
  case (Some ev)
  show ?thesis
  proof (cases "organizer ev \<noteq> uid \<or> \<not> eventSchema_valid (ev\<lparr>status := ''published''\<rparr>)")
    case True
    with Some have "snd (publishEvent s eid uid) = s"
      by (auto simp add: publishEvent_def saveEvent_def)
    then show ?thesis by (rule unchanged)
  next
    case False
    with Some have "snd (publishEvent s eid uid) =
         s\<lparr>events := AList.update eid (ev\<lparr>status := ''published''\<rparr>) (events s)\<rparr>"
      by (simp add: publishEvent_def saveEvent_def)
    with Some False show ?thesis by (intro published) auto
  qed
qed

lemma updateEvent_outcome:
  obtains (unchanged) "snd (updateEvent s eid uid b) = s"
  | (updated) ev ev' where
      "findById (events s) eid = Some ev" "eventSchema_valid ev'"
      "totalTickets ev' - availableTickets ev' = totalTickets ev - availableTickets ev"
      "case ueTotalTickets b of None \<Rightarrow> totalTickets ev' = totalTickets ev
         | Some q \<Rightarrow> of_int (totalTickets ev') = q"
      "snd (updateEvent s eid uid b) = s\<lparr>events := AList.update eid ev' (events s)\<rparr>"
proof (cases "updateEventSchema_validate b")
  case (Inl err)
  then have "snd (updateEvent s eid uid b) = s" by (simp add: updateEvent_def)
  then show ?thesis by (rule unchanged)
next
  case (Inr v)
  show ?thesis
  proof (cases "findById (events s) eid")
    case None
    with Inr have "snd (updateEvent s eid uid b) = s" by (simp add: updateEvent_def)
    then show ?thesis by (rule unchanged)
  next
    case (Some ev)
    let ?avail = "case uvTotalTickets v of None \<Rightarrow> None
        | Some n \<Rightarrow> if n \<noteq> 0 \<and> n \<noteq> totalTickets ev
                   then Some (availableTickets ev + (n - totalTickets ev)) else None"
    let ?ev' = "assignEvent ev v ?avail"
    show ?thesis
    proof (cases "organizer ev \<noteq> uid \<or> \<not> eventSchema_valid ?ev'")
      case True
      with Inr Some have "snd (updateEvent s eid uid b) = s"
        by (auto simp add: updateEvent_def saveEvent_def Let_def)
      then show ?thesis by (rule unchanged)
    next
      case False
      with Inr Some have result: "snd (updateEvent s eid uid b) =
          s\<lparr>events := AList.update eid ?ev' (events s)\<rparr>"
        by (simp add: updateEvent_def saveEvent_def Let_def)
      have pos: "case uvTotalTickets v of None \<Rightarrow> True | Some n \<Rightarrow> 1 \<le> n"
        by (rule updateEventSchema_validate_sound(3) [OF Inr])
      have booked: "totalTickets ?ev' - availableTickets ?ev'
          = totalTickets ev - availableTickets ev"
        using pos by (simp add: assignEvent_def split: option.splits)
      have total: "case ueTotalTickets b of None \<Rightarrow> totalTickets ?ev' = totalTickets ev
         | Some q \<Rightarrow> of_int (totalTickets ?ev') = q"
      proof (cases "ueTotalTickets b")
        case None
        then have "uvTotalTickets v = None"
          by (rule updateEventSchema_validate_sound(7) [OF Inr])
        with None show ?thesis by (simp add: assignEvent_def)
      next
        case (Some q)
        from updateEventSchema_validate_Inr [OF Inr] obtain n where
          "joiOptional (ueTotalTickets b) (joiIntegerMin ''totalTickets'' 1) = Inr n"
          "uvTotalTickets v = n"
          by (metis UpdateEventValue.select_convs(5))
        with Some obtain k where "q = of_int k" "uvTotalTickets v = Some k"
          by (auto simp add: joiOptional_Inr joiIntegerMin_Inr)
        with Some show ?thesis by (simp add: assignEvent_def)
      qed
      show ?thesis
        using Some _ booked total result
      proof (rule updated)
        show "eventSchema_valid ?ev'" using False by simp
      qed
    qed
  qed
qed

text \<open>Every request keeps the account of the tickets.\<close>

lemma accountedI:
  assumes "distinct (map fst (bookings s))"
    and "\<And>i e. findById (events s) i = Some e \<Longrightarrow>
           eventSchema_valid e \<and> availableTickets e + soldTickets s i = totalTickets e"
    and "\<And>j b. findById (bookings s) j = Some b \<Longrightarrow>
           bookingSchema_valid b \<and> findById (events s) (event b) \<noteq> None"
  shows "accounted s"
  using assms by (simp add: accounted_def)

lemma accountedD:
  assumes "accounted s"
  shows "distinct (map fst (bookings s))"
    and "findById (events s) i = Some e \<Longrightarrow> eventSchema_valid e"
    and "findById (events s) i = Some e \<Longrightarrow>
           availableTickets e + soldTickets s i = totalTickets e"
    and "findById (bookings s) j = Some b \<Longrightarrow> bookingSchema_valid b"
    and "findById (bookings s) j = Some b \<Longrightarrow> findById (events s) (event b) \<noteq> None"
  using assms by (simp_all add: accounted_def)

lemma accounted_bookTickets:
  assumes "accounted s"
  shows "accounted (snd (bookTickets s g req))"
proof (cases rule: bookTickets_outcome [of s g req, OF assms, case_names unchanged booked])
  case unchanged
  with assms show ?thesis by simp
next
  case (booked eid n ev)
  note d = accountedD(1) [OF assms]
  have fresh: "newId g \<notin> fst ` set (bookings s)"
    using booked(4) by (simp add: findById_def map_of_eq_None_iff)
  have ev: "eventSchema_valid ev" "availableTickets ev + soldTickets s eid = totalTickets ev"
    using assms booked(1) by (rule accountedD(2), rule accountedD(3))
  have price: "0 \<le> ticketPrice ev * of_int n"
    using ev(1) booked(2) by (simp add: eventSchema_valid_def)
  show ?thesis
    unfolding booked(5)
  proof (rule accountedI, goal_cases)
    case 1
    show ?case using d fresh by simp
  next
    case (2 i e)
    show ?case
    proof (cases "i = eid")
      case True
      with 2 have e: "e = ev\<lparr>availableTickets := availableTickets ev - n\<rparr>"
        by (simp add: findById_update)
      show ?thesis
        unfolding e using ev True by (simp add: eventSchema_valid_def soldTickets_append)
    next
      case False
      with 2 have "findById (events s) i = Some e"
        by (simp add: findById_update)
      with assms have "eventSchema_valid e" "availableTickets e + soldTickets s i = totalTickets e"
        by (rule accountedD(2), rule accountedD(3))
      with False show ?thesis by (simp add: soldTickets_append)
    qed
  next
    case (3 j x)
    show ?case
    proof (cases "j = newId g")
      case True
      with 3 booked(4) have x: "x = \<lparr>customer = bookingUser req, event = eid, quantity = n,
               totalPrice = ticketPrice ev * of_int n, bookingStatus = ''confirmed'',
               bookingReference = generateBookingReference g\<rparr>"
        by (simp add: findById_append)
      show ?thesis
        unfolding x using price booked(2) reference_not_empty
        by (simp add: bookingSchema_valid_def findById_update)
    next
      case False
      with 3 booked(4) have "findById (bookings s) j = Some x"
        by (simp add: findById_append)
      with assms have "bookingSchema_valid x" "findById (events s) (event x) \<noteq> None"
        by (rule accountedD(4), rule accountedD(5))
      then show ?thesis by (simp add: findById_update)
    qed
  qed
qed

lemma accounted_cancelBooking:
  assumes "accounted s"
  shows "accounted (snd (cancelBooking s bid uid))"
proof (cases rule: cancelBooking_outcome [of s bid uid, OF assms, case_names unchanged cancelled])
  case unchanged
  with assms show ?thesis by simp
next
  case (cancelled b ev)
  note d = accountedD(1) [OF assms]
  have b: "bookingSchema_valid b"
    using assms cancelled(1) by (rule accountedD(4))
  have ev: "eventSchema_valid ev" "availableTickets ev + soldTickets s (event b) = totalTickets ev"
    using assms cancelled(3) by (rule accountedD(2), rule accountedD(3))
  have sold: "soldTickets (s\<lparr>bookings := AList.update bid (b\<lparr>bookingStatus := ''cancelled''\<rparr>)
             (bookings s)\<rparr>) i
       = soldTickets s i - (if event b = i then quantity b else 0)" for i
    using d cancelled(1,2) by (rule soldTickets_cancel)
  show ?thesis
    unfolding cancelled(4)
  proof (rule accountedI, goal_cases)
    case 1
    show ?case using d by (simp add: distinct_update)
  next
    case (2 i e)
    show ?case
    proof (cases "i = event b")
      case True
      with 2 have e: "e = ev\<lparr>availableTickets := availableTickets ev + quantity b\<rparr>"
        by (simp add: findById_update)
      show ?thesis
        unfolding e using ev sold [of i] True by (simp add: eventSchema_valid_def)
    next
      case False
      with 2 have "findById (events s) i = Some e"
        by (simp add: findById_update)
      with assms have "eventSchema_valid e" "availableTickets e + soldTickets s i = totalTickets e"
        by (rule accountedD(2), rule accountedD(3))
      with False sold [of i] show ?thesis by simp
    qed
  next
    case (3 j x)
    show ?case
    proof (cases "j = bid")
      case True
      with 3 have x: "x = b\<lparr>bookingStatus := ''cancelled''\<rparr>"
        by (simp add: findById_update)
      show ?thesis
        unfolding x using b cancelled(3) by (simp add: findById_update bookingSchema_valid_def)
    next
      case False
      with 3 have "findById (bookings s) j = Some x"
        by (simp add: findById_update)
      with assms have "bookingSchema_valid x" "findById (events s) (event x) \<noteq> None"
        by (rule accountedD(4), rule accountedD(5))
      then show ?thesis by (simp add: findById_update)
    qed
  qed
qed

lemma accounted_createEvent:
  assumes "accounted s"
  shows "accounted (snd (createEvent s new uid b))"
proof (cases rule: createEvent_outcome [of s new uid b])
  case unchanged
  with assms show ?thesis by simp
next
  case (created ev)
  have zero: "soldTickets s new = 0"
    using assms created(1) by (rule soldTickets_unreferenced)
  show ?thesis
    unfolding created(4)
  proof (rule accountedI, goal_cases)
    case 1
    show ?case using accountedD(1) [OF assms] by simp
  next
    case (2 i e)
    show ?case
    proof (cases "i = new")
      case True
      with 2 created(1,2,3) zero show ?thesis
        by (simp add: findById_append soldTickets_def)
    next
      case False
      with 2 created(1) have "findById (events s) i = Some e"
        by (simp add: findById_append)
      with assms have "eventSchema_valid e" "availableTickets e + soldTickets s i = totalTickets e"
        by (rule accountedD(2), rule accountedD(3))
      then show ?thesis by (simp add: soldTickets_def)
    qed
  next
    case (3 j x)
    then have "findById (bookings s) j = Some x" by simp
    with assms have "bookingSchema_valid x" "findById (events s) (event x) \<noteq> None"
      by (rule accountedD(4), rule accountedD(5))
    with created(1) show ?case by (simp add: findById_append)
  qed
qed

lemma accounted_replace_event:
  assumes "accounted s" "findById (events s) eid = Some ev" "eventSchema_valid ev'"
    "totalTickets ev' - availableTickets ev' = totalTickets ev - availableTickets ev"
  shows "accounted (s\<lparr>events := AList.update eid ev' (events s)\<rparr>)"
proof (rule accountedI, goal_cases)
  case 1
  show ?case using accountedD(1) [OF assms(1)] by simp
next
  case (2 i e)
  show ?case
  proof (cases "i = eid")
    case True
    with 2 have "e = ev'" by (simp add: findById_update)
    moreover have "availableTickets ev + soldTickets s eid = totalTickets ev"
      using assms(1,2) by (rule accountedD(3))
    ultimately show ?thesis using assms(3,4) True by simp
  next
    case False
    with 2 have "findById (events s) i = Some e"
      by (simp add: findById_update)
    with assms(1) have "eventSchema_valid e" "availableTickets e + soldTickets s i = totalTickets e"
      by (rule accountedD(2), rule accountedD(3))
    then show ?thesis by simp
  qed
next
  case (3 j x)
  then have "findById (bookings s) j = Some x" by simp
  with assms(1) have "bookingSchema_valid x" "findById (events s) (event x) \<noteq> None"
    by (rule accountedD(4), rule accountedD(5))
  then show ?case by (simp add: findById_update)
qed

lemma accounted_publishEvent:
  assumes "accounted s"
  shows "accounted (snd (publishEvent s eid uid))"
proof (cases rule: publishEvent_outcome [of s eid uid])
  case unchanged
  with assms show ?thesis by simp
next
  case (published ev)
  show ?thesis
    unfolding published(3) using assms published(1,2)
    by (rule accounted_replace_event) simp
qed

lemma accounted_updateEvent:
  assumes "accounted s"
  shows "accounted (snd (updateEvent s eid uid b))"
proof (cases rule: updateEvent_outcome [of s eid uid b])
  case unchanged
  with assms show ?thesis by simp
next
  case (updated ev ev')
  show ?thesis
    unfolding updated(5) using assms updated(1,2,3)
    by (rule accounted_replace_event)
qed

lemma accounted_perform:
  assumes "accounted s"
  shows "accounted (snd (perform s x))"
  using assms
  by (cases x)
    (simp_all add: accounted_createEvent accounted_updateEvent accounted_publishEvent
      accounted_bookTickets accounted_cancelBooking)

lemma accounted_run:
  assumes "accounted s"
  shows "accounted (run s xs)"
  using assms by (induction xs arbitrary: s) (simp_all add: accounted_perform)

text \<open>In every store that serialized requests reach from the empty one, an event has no
  more tickets available than it has in total, and the difference is what its bookings
  that are not cancelled hold.\<close>

lemma reachable_upper_bound:
  assumes "findById (events (run emptyDb xs)) i = Some e"
  shows "availableTickets e \<le> totalTickets e"
    and "availableTickets e = totalTickets e - soldTickets (run emptyDb xs) i"
  using accounted_upper_bound [OF accounted_run [OF accounted_emptyDb] assms] by simp_all

text \<open>The lower bound is kept by every request but an update that lowers the total below
  the tickets sold.\<close>

lemma neverNegative_perform:
  assumes acc: "accounted s" and nn: "neverNegative s" and guard: "\<not> lowersBelowSold s x"
  shows "neverNegative (snd (perform s x))"
proof (cases x)
  case (CreateEvent new uid b)
  show ?thesis
  proof (cases rule: createEvent_outcome [of s new uid b])
    case unchanged
    with nn CreateEvent show ?thesis by simp
  next
    case (created ev)
    have "0 \<le> availableTickets ev"
      using created(2,3) by (simp add: eventSchema_valid_def)
    with nn created(1) show ?thesis
      unfolding CreateEvent perform.simps created(4) neverNegative_def
      by (auto simp add: findById_append split: if_splits)
  qed
next
  case (UpdateEvent eid uid b)
  show ?thesis
  proof (cases rule: updateEvent_outcome [of s eid uid b])
    case unchanged
    with nn UpdateEvent show ?thesis by simp
  next
    case (updated ev ev')
    have old: "availableTickets ev + soldTickets s eid = totalTickets ev"
      using acc updated(1) by (rule accountedD(3))
    have "0 \<le> availableTickets ev'"
    proof (cases "ueTotalTickets b")
      case None
      with updated(4) have "totalTickets ev' = totalTickets ev" by simp
      with updated(3) have "availableTickets ev' = availableTickets ev" by simp
      with nn updated(1) show ?thesis by (simp add: neverNegative_def)
    next
      case (Some q)
      with updated(4) have "of_int (totalTickets ev') = q" by simp
      with guard UpdateEvent Some have "soldTickets s eid \<le> totalTickets ev'"
        by auto
      with old updated(3) show ?thesis by simp
    qed
    with nn show ?thesis
      unfolding UpdateEvent perform.simps updated(5) neverNegative_def
      by (auto simp add: findById_update split: if_splits)
  qed
next
  case (PublishEvent eid uid)
  show ?thesis
  proof (cases rule: publishEvent_outcome [of s eid uid])
    case unchanged
    with nn PublishEvent show ?thesis by simp
  next
    case (published ev)
    have "0 \<le> availableTickets ev"
      using nn published(1) by (simp add: neverNegative_def)
    with nn show ?thesis
      unfolding PublishEvent perform.simps published(3) neverNegative_def
      by (auto simp add: findById_update split: if_splits)
  qed
next
  case (BookTickets g req)
  show ?thesis
  proof (cases rule: bookTickets_outcome [of s g req, OF acc, case_names unchanged booked])
    case unchanged
    with nn BookTickets show ?thesis by simp
  next
    case (booked eid n ev)
    with nn show ?thesis
      unfolding BookTickets perform.simps booked(5) neverNegative_def
      by (auto simp add: findById_update split: if_splits)
  qed
next
  case (CancelBooking bid uid)
  show ?thesis
  proof (cases rule: cancelBooking_outcome [of s bid uid, OF acc, case_names unchanged cancelled])
    case unchanged
    with nn CancelBooking show ?thesis by simp
  next
    case (cancelled b ev)
    have "bookingSchema_valid b"
      using acc cancelled(1) by (rule accountedD(4))
    then have "0 \<le> quantity b"
      by (simp add: bookingSchema_valid_def)
    moreover have "0 \<le> availableTickets ev"
      using nn cancelled(3) by (simp add: neverNegative_def)
    ultimately show ?thesis
      using nn
      unfolding CancelBooking perform.simps cancelled(4) neverNegative_def
      by (auto simp add: findById_update split: if_splits)
  qed
qed

lemma bounds_run:
  assumes "accounted s" "neverNegative s" "coversSold s xs"
  shows "neverNegative (run s xs)"
  using assms
proof (induction xs arbitrary: s)
  case Nil
  then show ?case by simp
next
  case (Cons x xs)
  from Cons.prems have step: "\<not> lowersBelowSold s x" "coversSold (snd (perform s x)) xs"
    by simp_all
  have "accounted (snd (perform s x))"
    using Cons.prems(1) by (rule accounted_perform)
  moreover have "neverNegative (snd (perform s x))"
    using Cons.prems(1,2) step(1) by (rule neverNegative_perform)
  ultimately have "neverNegative (run (snd (perform s x)) xs)"
    using step(2) by (rule Cons.IH)
  then show ?case by simp
qed

text \<open>Both bounds hold in every store reached from the empty one by serialized requests
  of which no update lowers \<^verbatim>\<open>totalTickets\<close> below the tickets sold at that moment;
  \<^const>\<open>shrinkScenario\<close> is not such a sequence.\<close>

lemma reachable_bounds:
  assumes "coversSold emptyDb xs" "findById (events (run emptyDb xs)) i = Some e"
  shows "0 \<le> availableTickets e \<and> availableTickets e \<le> totalTickets e"
proof -
  have "neverNegative emptyDb"
    by (simp add: neverNegative_def emptyDb_def findById_def)
  with accounted_emptyDb have "neverNegative (run emptyDb xs)"
    using assms(1) by (rule bounds_run)
  with assms(2) reachable_upper_bound(1) [OF assms(2)] show ?thesis
    by (simp add: neverNegative_def)
qed

lemma shrinkScenario_not_covered: "\<not> coversSold emptyDb shrinkScenario"
  by code_simp

end
